theory Spec2Isabelle
  imports Main "HOL-Library.AList"
begin

section \<open>Text\<close>

text \<open>
  The bridge (\<^verbatim>\<open>OPC-UA (BiDirectional - With MQTT).py\<close>) works on Python \<^verbatim>\<open>str\<close>
  values. A text is modelled as a \<^typ>\<open>string\<close>; a \<^typ>\<open>char\<close> stands for the code point
  of the same number, so the model covers the texts whose code points are below 256.
  The methods of \<^verbatim>\<open>str\<close> that the bridge calls are written out for that range.
\<close>

definition isspace :: "char \<Rightarrow> bool" where
  \<comment> \<open>\<^verbatim>\<open>str.isspace\<close> on one character: TAB, LF, VT, FF, CR, FS, GS, RS, US, space,
      NEL (0x85) and the no-break space (0xA0)\<close>
  "isspace c = (c \<in> set [CHR 0x09, CHR 0x0A, CHR 0x0B, CHR 0x0C, CHR 0x0D, CHR 0x1C,
                           CHR 0x1D, CHR 0x1E, CHR 0x1F, CHR 0x20, CHR 0x85, CHR 0xA0])"

definition strip :: "string \<Rightarrow> string" where
  \<comment> \<open>\<^verbatim>\<open>str.strip()\<close>: whitespace removed at both ends\<close>
  "strip s = rev (dropWhile isspace (rev (dropWhile isspace s)))"

definition lower_char :: "char \<Rightarrow> char" where
  \<comment> \<open>A-Z and the capital letters 0xC0-0xDE (0xD7, the multiplication sign, is no letter)
      have their small letter 32 places further\<close>
  "lower_char c =
     (let n = (of_char c :: int)
      in if (65 \<le> n \<and> n \<le> 90) \<or> (192 \<le> n \<and> n \<le> 222 \<and> n \<noteq> 215)
         then char_of (n + 32) else c)"

definition lower :: "string \<Rightarrow> string" where
  \<comment> \<open>\<^verbatim>\<open>str.lower()\<close>\<close>
  "lower s = map lower_char s"

definition is_digit :: "char \<Rightarrow> bool" where
  "is_digit c = (48 \<le> (of_char c :: int) \<and> (of_char c :: int) \<le> 57)"

definition digit_val :: "char \<Rightarrow> int" where
  "digit_val c = of_char c - 48"

definition digit_char :: "int \<Rightarrow> char" where
  "digit_char d = char_of (48 + d)"

text \<open>
  \<^verbatim>\<open>str(n)\<close> for an integer: the decimal digits, most significant first, after a minus
  sign when the number is negative.
\<close>

function str_digits :: "int \<Rightarrow> string" where
  "str_digits i =
     (if i < 10 then [digit_char i] else str_digits (i div 10) @ [digit_char (i mod 10)])"
  by pat_completeness auto
termination
  by (relation "measure nat") auto

declare str_digits.simps [simp del]

definition str_int :: "int \<Rightarrow> string" where
  "str_int i = (if i < 0 then CHR ''-'' # str_digits (- i) else str_digits i)"

section \<open>Errors and values\<close>

datatype error =
    ValueError string   \<comment> \<open>raised by \<^verbatim>\<open>to_bool\<close> and by \<^verbatim>\<open>int()\<close>\<close>
  | KeyError string     \<comment> \<open>a missing dictionary key\<close>
  | TypeError string
  | UnicodeEncodeError string   \<comment> \<open>raised by \<^verbatim>\<open>print\<close> when stdout cannot encode the line\<close>
  | LibError string     \<comment> \<open>any exception raised inside the OPC UA, MQTT or json library,
                            with its message\<close>

text \<open>
  The values the bridge handles are Python objects. \<^verbatim>\<open>None\<close>, \<^verbatim>\<open>bool\<close>, \<^verbatim>\<open>int\<close> and
  \<^verbatim>\<open>str\<close> are modelled as they are. An object of any other type (a float, a list, a
  dictionary, a timestamp) is modelled by the results of the four operations the bridge
  applies to a value: \<^verbatim>\<open>str(x)\<close>, \<^verbatim>\<open>bool(x)\<close>, \<^verbatim>\<open>int(x)\<close> and \<^verbatim>\<open>json.dumps(x)\<close>.
\<close>

datatype pyval =
    PNone
  | PBool bool
  | PInt int
  | PStr string
  | PObject string bool "error + int" "error + string"

fun py_str :: "pyval \<Rightarrow> string" where
  \<comment> \<open>\<^verbatim>\<open>str(x)\<close>\<close>
  "py_str PNone = ''None''"
| "py_str (PBool b) = (if b then ''True'' else ''False'')"
| "py_str (PInt i) = str_int i"
| "py_str (PStr s) = s"
| "py_str (PObject s t i j) = s"

text \<open>
  \<^verbatim>\<open>repr(s)\<close> of a text, which Python puts into the message of a failed \<^verbatim>\<open>int(s)\<close>
  and of a \<^verbatim>\<open>KeyError\<close>: quoted (with double quotes when the text has a single quote and
  no double quote), the quote and the backslash escaped, control and other unprintable
  characters written as escapes.
\<close>

definition hex_digit :: "int \<Rightarrow> char" where
  "hex_digit d = ''0123456789abcdef'' ! nat (d mod 16)"

definition repr_char :: "char \<Rightarrow> char \<Rightarrow> string" where
  "repr_char q c =
     (let n = (of_char c :: int)
      in if c = q \<or> c = CHR 0x5C then [CHR 0x5C, c]
         else if c = CHR 0x09 then [CHR 0x5C, CHR ''t'']
         else if c = CHR 0x0A then [CHR 0x5C, CHR ''n'']
         else if c = CHR 0x0D then [CHR 0x5C, CHR ''r'']
         else if n < 32 \<or> n = 127 \<or> (128 \<le> n \<and> n \<le> 160) \<or> n = 173
           then [CHR 0x5C, CHR ''x'', hex_digit (n div 16), hex_digit n]
         else [c])"

definition py_repr :: "string \<Rightarrow> string" where
  "py_repr s =
     (let q = (if CHR 0x27 \<in> set s \<and> CHR 0x22 \<notin> set s then CHR 0x22 else CHR 0x27)
      in [q] @ concat (map (repr_char q) s) @ [q])"

text \<open>
  \<^verbatim>\<open>int(s)\<close> on a text (base 10), as CPython 3.11 reads it. A Python text may hold any
  code point, so \<^verbatim>\<open>int\<close> is written on lists of code points (the integers from 0 to
  0x10FFFF); \<open>codes\<close> gives the code points of a text of the model.

  The text is first brought to ASCII: a code point below 127 stays, a whitespace
  character becomes a space, a decimal digit of any script becomes the ASCII digit of its
  value, and at the first other character the text ends, with a question mark. The decimal
  digits are those of Unicode 14.0, the version of CPython 3.11: they come in runs of ten,
  from the zero of a script to its nine, and \<open>decimal_zeros\<close> lists the zeros.
\<close>

definition codes :: "string \<Rightarrow> int list" where
  "codes s = map of_char s"

definition unicode_space :: "int \<Rightarrow> bool" where
  \<comment> \<open>\<^verbatim>\<open>str.isspace\<close> on one character of any code point\<close>
  "unicode_space cp =
     (cp \<in> set [0x9, 0xA, 0xB, 0xC, 0xD, 0x1C, 0x1D, 0x1E, 0x1F, 0x20, 0x85, 0xA0,
                0x1680, 0x2000, 0x2001, 0x2002, 0x2003, 0x2004, 0x2005, 0x2006, 0x2007,
                0x2008, 0x2009, 0x200A, 0x2028, 0x2029, 0x202F, 0x205F, 0x3000])"

definition unicode_strip :: "int list \<Rightarrow> int list" where
  \<comment> \<open>\<^verbatim>\<open>str.strip()\<close> on a text of any code points\<close>
  "unicode_strip t = rev (dropWhile unicode_space (rev (dropWhile unicode_space t)))"

definition decimal_zeros :: "int list" where
  "decimal_zeros =
     [0x30, 0x660, 0x6F0, 0x7C0, 0x966, 0x9E6, 0xA66, 0xAE6, 0xB66, 0xBE6, 0xC66,
      0xCE6, 0xD66, 0xDE6, 0xE50, 0xED0, 0xF20, 0x1040, 0x1090, 0x17E0, 0x1810, 0x1946,
      0x19D0, 0x1A80, 0x1A90, 0x1B50, 0x1BB0, 0x1C40, 0x1C50, 0xA620, 0xA8D0, 0xA900,
      0xA9D0, 0xA9F0, 0xAA50, 0xABF0, 0xFF10, 0x104A0, 0x10D30, 0x11066, 0x110F0,
      0x11136, 0x111D0, 0x112F0, 0x11450, 0x114D0, 0x11650, 0x116C0, 0x11730, 0x118E0,
      0x11950, 0x11C50, 0x11D50, 0x11DA0, 0x16A60, 0x16AC0, 0x16B50, 0x1D7CE, 0x1D7D8,
      0x1D7E2, 0x1D7EC, 0x1D7F6, 0x1E140, 0x1E2F0, 0x1E950, 0x1FBF0]"

definition decimal_value :: "int \<Rightarrow> int option" where
  "decimal_value cp =
     map_option (\<lambda>z. cp - z) (find (\<lambda>z. z \<le> cp \<and> cp < z + 10) decimal_zeros)"

definition ascii_char :: "int \<Rightarrow> char" where
  \<comment> \<open>the ASCII reading of one character; a character that has none reads as a question
      mark\<close>
  "ascii_char cp =
     (if 0 \<le> cp \<and> cp < 127 then char_of cp
      else if unicode_space cp then CHR '' ''
      else case decimal_value cp of None \<Rightarrow> CHR ''?'' | Some d \<Rightarrow> digit_char d)"

fun to_ascii :: "int list \<Rightarrow> string" where
  \<comment> \<open>the ASCII reading of a text (\<^verbatim>\<open>_PyUnicode_TransformDecimalAndSpaceToASCII\<close>): it
      ends at the first character that has none\<close>
  "to_ascii [] = []"
| "to_ascii (cp # cps) =
     (if 0 \<le> cp \<and> cp < 127 then char_of cp # to_ascii cps
      else if unicode_space cp then CHR '' '' # to_ascii cps
      else case decimal_value cp of
             None \<Rightarrow> ''?''
           | Some d \<Rightarrow> digit_char d # to_ascii cps)"

text \<open>
  Then the number is read from the ASCII text. Whitespace at both ends is skipped: TAB,
  LF, VT, FF, CR and the space (so not the four separators 0x1C to 0x1F, which
  \<^verbatim>\<open>str.isspace\<close> takes for whitespace). One sign may come first. Then the run of digits
  and underscores is read: an underscore must stand between two digits. A run of more than
  4300 digits (\<^verbatim>\<open>sys.int_info.default_max_str_digits\<close>, which the script does not change)
  is refused before anything after the run is looked at; then nothing may follow the run.
  Every refusal is a \<^verbatim>\<open>ValueError\<close>; the message of an invalid literal holds the first
  200 characters of the \<^verbatim>\<open>repr\<close> of the text.
\<close>

definition ascii_space :: "char \<Rightarrow> bool" where
  "ascii_space c = (c \<in> set [CHR 0x09, CHR 0x0A, CHR 0x0B, CHR 0x0C, CHR 0x0D, CHR 0x20])"

definition ascii_strip :: "string \<Rightarrow> string" where
  "ascii_strip s = rev (dropWhile ascii_space (rev (dropWhile ascii_space s)))"

definition int_max_str_digits :: int where
  "int_max_str_digits = 4300"

fun scan_digits :: "string \<Rightarrow> int \<Rightarrow> int \<Rightarrow> bool \<Rightarrow> (int \<times> int \<times> string) option" where
  \<comment> \<open>arguments: the number read so far, the count of its digits, and whether the previous
      character was a digit; result: the number, the count of digits and what follows the
      run, or nothing when an underscore is out of place or the run has no digit\<close>
  "scan_digits [] acc n prev = (if prev then Some (acc, n, []) else None)"
| "scan_digits (c # cs) acc n prev =
     (if is_digit c then scan_digits cs (10 * acc + digit_val c) (n + 1) True
      else if c = CHR ''_'' then (if prev then scan_digits cs acc n False else None)
      else (if prev then Some (acc, n, c # cs) else None))"

definition sign_and_digits :: "string \<Rightarrow> bool \<times> string" where
  \<comment> \<open>whether a minus sign comes first, and the text after the sign\<close>
  "sign_and_digits t =
     (case t of
        [] \<Rightarrow> (False, [])
      | c # cs \<Rightarrow>
          if c = CHR ''-'' then (True, cs)
          else if c = CHR ''+'' then (False, cs)
          else (False, t))"


datatype int_failure =
    InvalidLiteral       \<comment> \<open>the text is no number\<close>
  | ExceedsLimit int     \<comment> \<open>the text has so many digits, more than the limit\<close>

definition read_int :: "string \<Rightarrow> int_failure + int" where
  \<comment> \<open>the number of an ASCII text without whitespace around it\<close>
  "read_int a =
     (case scan_digits (snd (sign_and_digits a)) 0 0 False of
        None \<Rightarrow> Inl InvalidLiteral
      | Some (v, n, rest) \<Rightarrow>
          if n > int_max_str_digits then Inl (ExceedsLimit n)
          else if rest \<noteq> [] then Inl InvalidLiteral
          else Inr (if fst (sign_and_digits a) then - v else v))"

definition int_of_unicode :: "int list \<Rightarrow> int_failure + int" where
  \<comment> \<open>\<^verbatim>\<open>int(s)\<close> on a text of any code points\<close>
  "int_of_unicode t = read_int (ascii_strip (to_ascii t))"

definition invalid_literal :: "string \<Rightarrow> error" where
  "invalid_literal s =
     ValueError (''invalid literal for int() with base 10: '' @ take 200 (py_repr s))"

definition exceeds_limit :: "int \<Rightarrow> error" where
  "exceeds_limit n =
     ValueError (''Exceeds the limit ('' @ str_int int_max_str_digits @
       '' digits) for integer string conversion: value has '' @ str_int n @
       '' digits; use sys.set_int_max_str_digits() to increase the limit'')"


fun int_error :: "string \<Rightarrow> int_failure \<Rightarrow> error" where
  "int_error s InvalidLiteral = invalid_literal s"
| "int_error s (ExceedsLimit n) = exceeds_limit n"

definition int_of_text :: "string \<Rightarrow> error + int" where
  \<comment> \<open>\<^verbatim>\<open>int(s)\<close> on a text of the model, with the exception it raises\<close>
  "int_of_text s =
     (case int_of_unicode (codes s) of
        Inl f \<Rightarrow> Inl (int_error s f)
      | Inr v \<Rightarrow> Inr v)"

text \<open>
  Two grammars for the text of an integer. \<open>base10_signed\<close> is plain signed decimal
  notation: an optional sign and one or more decimal digits. \<open>int_literal\<close> also lets
  single underscores stand between digits. \<open>digit_count\<close> counts the digits of a text.
\<close>

definition base10_signed :: "string \<Rightarrow> bool" where
  "base10_signed t =
     (case t of
        [] \<Rightarrow> False
      | c # cs \<Rightarrow>
          if c = CHR ''-'' \<or> c = CHR ''+'' then cs \<noteq> [] \<and> list_all is_digit cs
          else list_all is_digit t)"

fun adjacent_underscores :: "string \<Rightarrow> bool" where
  "adjacent_underscores (a # b # cs) =
     ((a = CHR ''_'' \<and> b = CHR ''_'') \<or> adjacent_underscores (b # cs))"
| "adjacent_underscores cs = False"

definition digit_groups :: "string \<Rightarrow> bool" where
  "digit_groups ds =
     (ds \<noteq> [] \<and> is_digit (hd ds) \<and> is_digit (last ds) \<and>
      list_all (\<lambda>c. is_digit c \<or> c = CHR ''_'') ds \<and> \<not> adjacent_underscores ds)"

definition digit_count :: "string \<Rightarrow> int" where
  "digit_count t = int (length (filter is_digit t))"

definition int_literal :: "string \<Rightarrow> bool" where
  "int_literal t =
     (case t of
        [] \<Rightarrow> False
      | c # cs \<Rightarrow> if c = CHR ''-'' \<or> c = CHR ''+'' then digit_groups cs else digit_groups t)"

fun py_bool :: "pyval \<Rightarrow> bool" where
  \<comment> \<open>\<^verbatim>\<open>bool(x)\<close>\<close>
  "py_bool PNone = False"
| "py_bool (PBool b) = b"
| "py_bool (PInt i) = (i \<noteq> 0)"
| "py_bool (PStr s) = (s \<noteq> [])"
| "py_bool (PObject s t i j) = t"

fun py_int :: "pyval \<Rightarrow> error + int" where
  \<comment> \<open>\<^verbatim>\<open>int(x)\<close>\<close>
  "py_int PNone = Inl (TypeError ''int() argument must be a string or a real number'')"
| "py_int (PBool b) = Inr (if b then 1 else 0)"
| "py_int (PInt i) = Inr i"
| "py_int (PStr s) = int_of_text s"
| "py_int (PObject s t i j) = i"

fun error_str :: "error \<Rightarrow> string" where
  \<comment> \<open>\<^verbatim>\<open>str(e)\<close> of an exception\<close>
  "error_str (ValueError m) = m"
| "error_str (KeyError k) = py_repr k"
| "error_str (TypeError m) = m"
| "error_str (UnicodeEncodeError m) = m"
| "error_str (LibError m) = m"

text \<open>
  \<^verbatim>\<open>json.dumps\<close> on the dictionaries the bridge builds (text keys; default separators
  and \<^verbatim>\<open>ensure_ascii\<close>).
\<close>

definition json_escape_char :: "char \<Rightarrow> string" where
  "json_escape_char c =
     (let n = (of_char c :: int)
      in if c = CHR 0x22 then [CHR 0x5C, CHR 0x22]
         else if c = CHR 0x5C then [CHR 0x5C, CHR 0x5C]
         else if c = CHR 0x0A then [CHR 0x5C, CHR ''n'']
         else if c = CHR 0x0D then [CHR 0x5C, CHR ''r'']
         else if c = CHR 0x09 then [CHR 0x5C, CHR ''t'']
         else if c = CHR 0x08 then [CHR 0x5C, CHR ''b'']
         else if c = CHR 0x0C then [CHR 0x5C, CHR ''f'']
         else if 32 \<le> n \<and> n \<le> 126 then [c]
         else [CHR 0x5C, CHR ''u'', CHR ''0'', CHR ''0'', hex_digit (n div 16), hex_digit n])"

definition json_string :: "string \<Rightarrow> string" where
  "json_string s = [CHR 0x22] @ concat (map json_escape_char s) @ [CHR 0x22]"

fun json_value :: "pyval \<Rightarrow> error + string" where
  "json_value PNone = Inr ''null''"
| "json_value (PBool b) = Inr (if b then ''true'' else ''false'')"
| "json_value (PInt i) = Inr (str_int i)"
| "json_value (PStr s) = Inr (json_string s)"
| "json_value (PObject s t i j) = j"

fun json_members :: "(string \<times> pyval) list \<Rightarrow> error + string list" where
  "json_members [] = Inr []"
| "json_members ((k, v) # kvs) =
     (case json_value v of
        Inl e \<Rightarrow> Inl e
      | Inr t \<Rightarrow>
          (case json_members kvs of
             Inl e \<Rightarrow> Inl e
           | Inr ts \<Rightarrow> Inr ((json_string k @ '': '' @ t) # ts)))"

fun join :: "string \<Rightarrow> string list \<Rightarrow> string" where
  \<comment> \<open>\<^verbatim>\<open>sep.join(parts)\<close>\<close>
  "join sep [] = []"
| "join sep [t] = t"
| "join sep (t # ts) = t @ sep @ join sep ts"

definition json_dumps :: "(string \<times> pyval) list \<Rightarrow> error + string" where
  "json_dumps d =
     (case json_members d of
        Inl e \<Rightarrow> Inl e
      | Inr ts \<Rightarrow> Inr (''{'' @ join '', '' ts @ ''}''))"

section \<open>Configuration\<close>

datatype py_type = PyBool | PyInt | PyOther
  \<comment> \<open>the Python type named in a node specification: \<^verbatim>\<open>bool\<close>, \<^verbatim>\<open>int\<close>, or any other\<close>

text \<open>
  A Python dictionary is modelled as an association list in insertion order:
  \<^const>\<open>map_of\<close> looks a key up, \<^const>\<open>AList.update\<close> stores a value (in place when the
  key is there, at the end otherwise).
\<close>

type_synonym ('k, 'v) dict = "('k \<times> 'v) list"

record config =
  NODES_SPEC :: "(string, string \<times> py_type) dict"  \<comment> \<open>friendly name to (NodeId string, type)\<close>
  MQTT_ROOT :: string
  MQTT_RETAIN :: bool
  SUB_PUB_INTERVAL_MS :: int

definition user_config :: config where
  \<comment> \<open>the USER CONFIG block of the script\<close>
  \<open>user_config = \<lparr>
     NODES_SPEC = [
       (''AcknFault'', (''ns=3;s="DB_OP"."AcknFault"'', PyBool)),
       (''ActNo'', (''ns=3;s="DB_OP"."ActNo"'', PyInt)),
       (''JogLeft'', (''ns=3;s="DB_OP"."JogLeft"'', PyBool)),
       (''JogRight'', (''ns=3;s="DB_OP"."JogRight"'', PyBool)),
       (''OperationOFF'', (''ns=3;s="DB_OP"."OperationOFF"'', PyBool)),
       (''OperationON'', (''ns=3;s="DB_OP"."OperationON"'', PyBool)),
       (''SetpNo'', (''ns=3;s="DB_OP"."SetpNo"'', PyInt)),
       (''S1'', (''ns=3;s="B_Bay1"'', PyBool)),
       (''S2'', (''ns=3;s="B_Bay2"'', PyBool)),
       (''S3'', (''ns=3;s="B_Bay3"'', PyBool)),
       (''LB'', (''ns=3;s="B_LB"'', PyBool)),
       (''B1'', (''ns=3;s="S_Bay1"'', PyBool)),
       (''B2'', (''ns=3;s="S_Bay2"'', PyBool)),
       (''B3'', (''ns=3;s="S_Bay3"'', PyBool)),
       (''B_LB'', (''ns=3;s="S_BayLB"'', PyBool)),
       (''P_Bay1'', (''ns=3;s="P_Bay1"'', PyBool)),
       (''P_Bay2'', (''ns=3;s="P_Bay2"'', PyBool)),
       (''P_Bay3'', (''ns=3;s="P_Bay3"'', PyBool)),
       (''P_BayLB'', (''ns=3;s="P_BayLB"'', PyBool)),
       (''K_Right'', (''ns=3;s="K_Right"'', PyBool)),
       (''K_Left'', (''ns=3;s="K_Left"'', PyBool))],
     MQTT_ROOT = ''imhotep'',
     MQTT_RETAIN = False,
     SUB_PUB_INTERVAL_MS = 300 \<rparr>\<close>

section \<open>The OPC UA and MQTT libraries\<close>

text \<open>
  The objects of the two client libraries are modelled by what the bridge reads of them:
  a node by \<^verbatim>\<open>node.nodeid.to_string()\<close> and \<^verbatim>\<open>str(node)\<close>, a timestamp by its
  \<^verbatim>\<open>isoformat()\<close>, a payload of bytes by \<^verbatim>\<open>payload.decode("utf-8", errors="ignore")\<close>
  (which never raises).
\<close>

record node =
  nodeid_to_string :: string
  node_str :: string

datatype datetime = DateTime (isoformat: string)

datatype bytes = Bytes (decode_utf8_ignore: string)

datatype variant_type = Boolean | Int32

datatype variant = Variant pyval "variant_type option"
  \<comment> \<open>\<^verbatim>\<open>ua.Variant(value, type)\<close>; without a type the library guesses one\<close>

record data_value =
  Value :: "variant option"
  SourceTimestamp :: "datetime option"
  ServerTimestamp :: "datetime option"

record mqtt_message =
  msg_topic :: string
  msg_payload :: bytes

type_synonym handle = int

text \<open>
  Every call into a library is recorded as an event, whether it succeeds or raises; so is
  every line printed. The trace of events is what the bridge does to the outside.
\<close>

datatype diagnostic =
    NodeNotReady string              \<comment> \<open>[MQTT] Received for 'name', but node not ready.\<close>
  | Written string pyval             \<comment> \<open>[MQTT->OPC] name <= value\<close>
  | WriteErrorFor string error       \<comment> \<open>[MQTT->OPC] Write error for name: e\<close>
  | Telemetry string pyval string    \<comment> \<open>[OPC->MQTT] name -> val @ topic\<close>
  | OpcConnecting
  | OpcConnected
  | SubscribedTo int                 \<comment> \<open>[OPC] Subscribed to n nodes.\<close>
  | SnapshotPublished
  | OpcDisconnected
  | MqttDisconnected

datatype event =
    MqttConnect
  | MqttLoopThread
  | OpcConnect
  | GetNode string
  | CreateSubscription int
  | SubscribeDataChange node
  | GetValue node
  | SetValue node data_value
  | Publish string string int bool   \<comment> \<open>topic, payload, qos, retain\<close>
  | Unsubscribe handle
  | DeleteSubscription
  | OpcDisconnect
  | MqttDisconnect
  | Print diagnostic

text \<open>
  What the servers and \<^verbatim>\<open>json.loads\<close> answer is not in the script: it is a parameter of
  the model, one outcome (a result, or the exception raised) for each call.
  \<^verbatim>\<open>json.loads\<close> answers a dictionary with text keys or anything else.

  So is what stdout does with a line that holds more than ASCII characters. Four lines of
  the script do: their prefixes are written with the arrow U+2192, and two of them hold the
  text of a value or of an exception (\<^verbatim>\<open>Written\<close>, \<^verbatim>\<open>WriteErrorFor\<close>, \<^verbatim>\<open>Telemetry\<close>,
  \<^verbatim>\<open>SnapshotPublished\<close>). \<^verbatim>\<open>print\<close> raises \<^verbatim>\<open>UnicodeEncodeError\<close> on such a line when
  stdout cannot encode it; \<open>stdout_write\<close> is the outcome. The other lines are ASCII text
  around a configured name or number, which every encoding of stdout takes.
\<close>

datatype json = JDict "(string, pyval) dict" | JOther

record env =
  json_loads :: "string \<Rightarrow> error + json"
  mqtt_connect :: "error + unit"
  opc_connect :: "error + unit"
  get_node :: "string \<Rightarrow> error + node"
  create_subscription :: "int \<Rightarrow> error + unit"
  subscribe_data_change :: "node \<Rightarrow> error + handle"
  get_value :: "node \<Rightarrow> error + pyval"
  set_value :: "node \<Rightarrow> data_value \<Rightarrow> error + unit"
  unsubscribe :: "handle \<Rightarrow> error + unit"
  delete_subscription :: "error + unit"
  opc_disconnect :: "error + unit"
  mqtt_publish :: "string \<Rightarrow> string \<Rightarrow> int \<Rightarrow> bool \<Rightarrow> error + unit"
  mqtt_disconnect :: "error + unit"
  stdout_write :: "diagnostic \<Rightarrow> error + unit"

section \<open>Helpers\<close>

text \<open>
  \<^verbatim>\<open>
  def to_bool(s: str) -> bool:
      s = str(s).strip().lower()
      if s in ("1", "true", "t", "on", "yes", "y"):
          return True
      if s in ("0", "false", "f", "off", "no", "n"):
          return False
      raise ValueError(f"Cannot parse boolean from '{s}'")
  \<close>
\<close>

definition to_bool :: "pyval \<Rightarrow> error + bool" where
  "to_bool x =
     (let s = lower (strip (py_str x))
      in if s \<in> set [''1'', ''true'', ''t'', ''on'', ''yes'', ''y''] then Inr True
         else if s \<in> set [''0'', ''false'', ''f'', ''off'', ''no'', ''n''] then Inr False
         else Inl (ValueError (''Cannot parse boolean from '' @ [CHR 0x27] @ s @ [CHR 0x27])))"

text \<open>
  \<^verbatim>\<open>
  def variant_for(value, py_type):
      if py_type is bool:
          return ua.Variant(bool(value), ua.VariantType.Boolean)
      if py_type is int:
          return ua.Variant(int(value), ua.VariantType.Int32)
      # fallback
      return ua.Variant(value)
  \<close>
\<close>

definition variant_for :: "pyval \<Rightarrow> py_type \<Rightarrow> error + variant" where
  "variant_for value py_type =
     (if py_type = PyBool then Inr (Variant (PBool (py_bool value)) (Some Boolean))
      else if py_type = PyInt then
        (case py_int value of
           Inl e \<Rightarrow> Inl e
         | Inr i \<Rightarrow> Inr (Variant (PInt i) (Some Int32)))
      else Inr (Variant value None))"

text \<open>
  \<^verbatim>\<open>
  def parse_incoming_payload(payload: bytes, expected_type: type):
      raw = payload.decode("utf-8", errors="ignore").strip()
      # Try JSON first
      try:
          obj = json.loads(raw)
          if isinstance(obj, dict) and "value" in obj:
              raw = obj["value"]
      except Exception:
          pass

      if expected_type is bool:
          return to_bool(raw)
      if expected_type is int:
          return int(str(raw).strip())
      return raw
  \<close>
\<close>

definition parse_incoming_payload :: "env \<Rightarrow> bytes \<Rightarrow> py_type \<Rightarrow> error + pyval" where
  "parse_incoming_payload env payload expected_type =
     (let raw = strip (decode_utf8_ignore payload);
          raw = (case json_loads env raw of
                   Inr (JDict obj) \<Rightarrow>
                     (case map_of obj ''value'' of Some v \<Rightarrow> v | None \<Rightarrow> PStr raw)
                 | Inr JOther \<Rightarrow> PStr raw
                 | Inl e \<Rightarrow> PStr raw)
      in if expected_type = PyBool then
           (case to_bool raw of Inl e \<Rightarrow> Inl e | Inr b \<Rightarrow> Inr (PBool b))
         else if expected_type = PyInt then
           (case int_of_text (strip (py_str raw)) of Inl e \<Rightarrow> Inl e | Inr i \<Rightarrow> Inr (PInt i))
         else Inr raw)"

text \<open>
  The last lines of \<^verbatim>\<open>parse_incoming_payload\<close>, as a function of the value they convert:
  \<^verbatim>\<open>
      if expected_type is bool:
          return to_bool(raw)
      if expected_type is int:
          return int(str(raw).strip())
      return raw
  \<close>
\<close>

definition typed_value :: "pyval \<Rightarrow> py_type \<Rightarrow> error + pyval" where
  "typed_value raw expected_type =
     (if expected_type = PyBool then
        (case to_bool raw of Inl e \<Rightarrow> Inl e | Inr b \<Rightarrow> Inr (PBool b))
      else if expected_type = PyInt then
        (case int_of_text (strip (py_str raw)) of Inl e \<Rightarrow> Inl e | Inr i \<Rightarrow> Inr (PInt i))
      else Inr raw)"

text \<open>
  The conversion \<^verbatim>\<open>int(str(raw).strip())\<close> of these lines, for a text \<^verbatim>\<open>raw\<close> of any
  code points.
\<close>

definition decode_int :: "int list \<Rightarrow> int_failure + int" where
  "decode_int raw = int_of_unicode (unicode_strip raw)"

section \<open>The bridge\<close>

record bridge =
  nodes :: "(string, node) dict"             \<comment> \<open>friendly name to node object\<close>
  nodeid_to_name :: "(string, string) dict"  \<comment> \<open>NodeId string to friendly name\<close>
  subscription :: "unit option"
  sub_handles :: "handle list"
  telemetry_topics :: "(string, string) dict"
  control_topics :: "(string, string) dict"
  topic_to_name :: "(string, string) dict"

text \<open>
  A method of the bridge is run on the object's state; it returns a result or the
  exception that leaves it, the state as the method left it, and the events in order.
\<close>

type_synonym 'a act = "bridge \<Rightarrow> (error + 'a) \<times> bridge \<times> event list"

definition ret :: "'a \<Rightarrow> 'a act" where
  "ret x b = (Inr x, b, [])"

definition pure :: "error + 'a \<Rightarrow> 'a act" where
  \<comment> \<open>a computation without effect that returns or raises\<close>
  "pure r b = (r, b, [])"

definition call :: "event \<Rightarrow> error + 'a \<Rightarrow> 'a act" where
  \<comment> \<open>a call into a library, with its outcome\<close>
  "call ev outcome b = (outcome, b, [ev])"

definition print :: "diagnostic \<Rightarrow> unit act" where
  \<comment> \<open>\<^verbatim>\<open>print\<close> of an ASCII line\<close>
  "print d b = (Inr (), b, [Print d])"

definition print_line :: "env \<Rightarrow> diagnostic \<Rightarrow> unit act" where
  \<comment> \<open>\<^verbatim>\<open>print\<close> of a line that holds more than ASCII characters: it may raise\<close>
  "print_line env d = call (Print d) (stdout_write env d)"

definition read :: "(bridge \<Rightarrow> 'a) \<Rightarrow> 'a act" where
  "read field b = (Inr (field b), b, [])"

definition modify :: "(bridge \<Rightarrow> bridge) \<Rightarrow> unit act" where
  "modify f b = (Inr (), f b, [])"

definition bnd :: "'a act \<Rightarrow> ('a \<Rightarrow> 'b act) \<Rightarrow> 'b act" where
  \<comment> \<open>\<^verbatim>\<open>x = m; f(x)\<close>: an exception of \<open>m\<close> skips \<open>f\<close>\<close>
  "bnd m f b =
     (case m b of
        (Inl e, b', evs) \<Rightarrow> (Inl e, b', evs)
      | (Inr x, b', evs) \<Rightarrow> (case f x b' of (r, b'', evs') \<Rightarrow> (r, b'', evs @ evs')))"

fun block :: "unit act list \<Rightarrow> unit act" where
  \<comment> \<open>statements one after the other\<close>
  "block [] = ret ()"
| "block (s # ss) = bnd s (\<lambda>_. block ss)"

fun for_each :: "'a list \<Rightarrow> ('a \<Rightarrow> unit act) \<Rightarrow> unit act" where
  \<comment> \<open>\<^verbatim>\<open>for x in xs: body(x)\<close>\<close>
  "for_each [] body = ret ()"
| "for_each (x # xs) body = bnd (body x) (\<lambda>_. for_each xs body)"

definition try_except :: "'a act \<Rightarrow> (error \<Rightarrow> 'a act) \<Rightarrow> 'a act" where
  \<comment> \<open>\<^verbatim>\<open>try: m except Exception as e: handler(e)\<close>\<close>
  "try_except m handler b =
     (case m b of
        (Inl e, b', evs) \<Rightarrow> (case handler e b' of (r, b'', evs') \<Rightarrow> (r, b'', evs @ evs'))
      | (Inr x, b', evs) \<Rightarrow> (Inr x, b', evs))"

definition try_finally :: "'a act \<Rightarrow> unit act \<Rightarrow> 'a act" where
  \<comment> \<open>\<^verbatim>\<open>try: m finally: fin\<close>: \<open>fin\<close> runs in both cases; the exception of \<open>m\<close> goes
      on after it, unless \<open>fin\<close> raises one itself\<close>
  "try_finally m fin b =
     (case m b of
        (r, b', evs) \<Rightarrow>
          (case fin b' of
             (Inl e, b'', evs') \<Rightarrow> (Inl e, b'', evs @ evs')
           | (Inr u, b'', evs') \<Rightarrow> (r, b'', evs @ evs')))"

definition subscript :: "('k, 'v) dict \<Rightarrow> 'k \<Rightarrow> ('k \<Rightarrow> error) \<Rightarrow> error + 'v" where
  \<comment> \<open>\<^verbatim>\<open>d[k]\<close>\<close>
  "subscript d k err = (case map_of d k of None \<Rightarrow> Inl (err k) | Some v \<Rightarrow> Inr v)"

definition dict_of :: "('k \<times> 'v) list \<Rightarrow> ('k, 'v) dict" where
  \<comment> \<open>a dictionary comprehension: the pairs are stored one after the other\<close>
  "dict_of kvs = foldl (\<lambda>d (k, v). AList.update k v d) [] kvs"

text \<open>
  \<^verbatim>\<open>__init__\<close>: no node yet, no subscription; the topic maps are built from the names.
  \<^verbatim>\<open>
  self.telemetry_topics = {name: f"{MQTT_ROOT}/opc/tele/{name}" for name in NODES_SPEC.keys()}
  self.control_topics =   {name: f"{MQTT_ROOT}/opc/cmd/{name}"  for name in NODES_SPEC.keys()}
  self.topic_to_name = {v: k for k, v in self.control_topics.items()}
  \<close>
\<close>

definition telemetry_topic :: "config \<Rightarrow> string \<Rightarrow> string" where
  "telemetry_topic cfg name = MQTT_ROOT cfg @ ''/opc/tele/'' @ name"

definition control_topic :: "config \<Rightarrow> string \<Rightarrow> string" where
  "control_topic cfg name = MQTT_ROOT cfg @ ''/opc/cmd/'' @ name"

definition init :: "config \<Rightarrow> bridge" where
  "init cfg =
     (let tele = dict_of (map (\<lambda>name. (name, telemetry_topic cfg name)) (map fst (NODES_SPEC cfg)));
          ctrl = dict_of (map (\<lambda>name. (name, control_topic cfg name)) (map fst (NODES_SPEC cfg)))
      in \<lparr> nodes = [], nodeid_to_name = [], subscription = None, sub_handles = [],
           telemetry_topics = tele, control_topics = ctrl,
           topic_to_name = dict_of (map (\<lambda>(k, v). (v, k)) ctrl) \<rparr>)"

text \<open>
  \<^verbatim>\<open>
  def on_message(self, client, userdata, msg):
      topic = msg.topic
      payload = msg.payload
      # We only expect control topics here
      if topic not in self.topic_to_name:
          return
      name = self.topic_to_name[topic]
      nid, expected_type = NODES_SPEC[name]
      node = self.nodes.get(name)
      if node is None:
          print(f"[MQTT] Received for '{name}', but node not ready.")
          return

      try:
          value = parse_incoming_payload(payload, expected_type)
          dv = ua.DataValue()
          dv.Value = variant_for(value, expected_type)
          dv.SourceTimestamp = None
          dv.ServerTimestamp = None
          node.set_value(dv)
          print(f"[MQTT->OPC] {name} <= {value!r}")
      except Exception as e:
          print(f"[MQTT->OPC] Write error for {name}: {e}")
  \<close>
\<close>

definition on_message :: "env \<Rightarrow> config \<Rightarrow> mqtt_message \<Rightarrow> unit act" where
  "on_message env cfg msg =
     (let topic = msg_topic msg; payload = msg_payload msg
      in bnd (read topic_to_name) (\<lambda>t2n.
           case map_of t2n topic of
             None \<Rightarrow> ret ()
           | Some name \<Rightarrow>
               bnd (pure (subscript (NODES_SPEC cfg) name KeyError)) (\<lambda>(nid, expected_type).
               bnd (read nodes) (\<lambda>ns.
                 case map_of ns name of
                   None \<Rightarrow> print (NodeNotReady name)
                 | Some node \<Rightarrow>
                     try_except
                       (bnd (pure (parse_incoming_payload env payload expected_type)) (\<lambda>value.
                        bnd (pure (variant_for value expected_type)) (\<lambda>v.
                        let dv = \<lparr> Value = Some v, SourceTimestamp = None, ServerTimestamp = None \<rparr>
                        in block [call (SetValue node dv) (set_value env node dv),
                                  print_line env (Written name value)])))
                       (\<lambda>e. print_line env (WriteErrorFor name e))))))"

text \<open>
  \<^verbatim>\<open>
  def datachange_notification(self, node, val, data):
      name = self.outer.nodeid_to_name.get(node.nodeid.to_string(), str(node))
      ts = getattr(data.monitored_item.Value, "ServerTimestamp", None) or
           getattr(data.monitored_item.Value, "SourceTimestamp", None)
      ts_iso = ts.isoformat() if ts else None
      topic = self.outer.telemetry_topics.get(name)
      if topic:
          payload = {"name": name, "value": val, "ts": ts_iso}
          self.outer.mqtt.publish(topic, json.dumps(payload), qos=1, retain=MQTT_RETAIN)
          print(f"[OPC->MQTT] {name} -> {val}  @ {topic}")
  \<close>
  The argument \<open>data\<close> of the model is \<^verbatim>\<open>data.monitored_item.Value\<close>.
\<close>

definition datachange_notification :: "env \<Rightarrow> config \<Rightarrow> node \<Rightarrow> pyval \<Rightarrow> data_value \<Rightarrow> unit act" where
  "datachange_notification env cfg node val data =
     bnd (read nodeid_to_name) (\<lambda>n2n.
       let name = (case map_of n2n (nodeid_to_string node) of Some n \<Rightarrow> n | None \<Rightarrow> node_str node);
           ts = (case ServerTimestamp data of Some t \<Rightarrow> Some t | None \<Rightarrow> SourceTimestamp data);
           ts_iso = (case ts of Some t \<Rightarrow> PStr (isoformat t) | None \<Rightarrow> PNone)
       in bnd (read telemetry_topics) (\<lambda>tt.
            case map_of tt name of
              None \<Rightarrow> ret ()
            | Some topic \<Rightarrow>
                if topic \<noteq> [] then
                  bnd (pure (json_dumps [(''name'', PStr name), (''value'', val), (''ts'', ts_iso)])) (\<lambda>text.
                    block [call (Publish topic text 1 (MQTT_RETAIN cfg))
                                (mqtt_publish env topic text 1 (MQTT_RETAIN cfg)),
                           print_line env (Telemetry name val topic)])
                else ret ()))"

text \<open>
  \<^verbatim>\<open>
  def publish_initial_snapshot(self):
      for name, node in self.nodes.items():
          try:
              val = node.get_value()
          except Exception as e:
              val = f"<read error: {e}>"
          topic = self.telemetry_topics.get(name)
          if topic:
              payload = {"name": name, "value": val, "ts": None, "initial": True}
              self.mqtt.publish(topic, json.dumps(payload), qos=1, retain=MQTT_RETAIN)
      print("[OPC->MQTT] Initial snapshot published.")
  \<close>
\<close>

definition snapshot_of :: "env \<Rightarrow> config \<Rightarrow> string \<times> node \<Rightarrow> unit act" where
  \<comment> \<open>the body of the loop, for one \<open>(name, node)\<close>\<close>
  "snapshot_of env cfg = (\<lambda>(name, node).
     bnd (try_except (call (GetValue node) (get_value env node))
                     (\<lambda>e. ret (PStr (''<read error: '' @ error_str e @ ''>'')))) (\<lambda>val.
     bnd (read telemetry_topics) (\<lambda>tt.
       case map_of tt name of
         None \<Rightarrow> ret ()
       | Some topic \<Rightarrow>
           if topic \<noteq> [] then
             bnd (pure (json_dumps [(''name'', PStr name), (''value'', val), (''ts'', PNone),
                                    (''initial'', PBool True)])) (\<lambda>text.
               call (Publish topic text 1 (MQTT_RETAIN cfg))
                    (mqtt_publish env topic text 1 (MQTT_RETAIN cfg)))
           else ret ())))"

definition publish_initial_snapshot :: "env \<Rightarrow> config \<Rightarrow> unit act" where
  "publish_initial_snapshot env cfg =
     bnd (read nodes) (\<lambda>ns.
       block [
         for_each ns (snapshot_of env cfg),
         print_line env SnapshotPublished])"

text \<open>
  \<^verbatim>\<open>
  def start(self):
      self.mqtt.connect(MQTT_BROKER, MQTT_PORT, keepalive=60)
      threading.Thread(target=self.mqtt.loop_forever, daemon=True).start()

      print(f"[OPC] Connecting to {OPC_SERVER_URL} ...")
      self.opc_client.connect()
      print("[OPC] Connected. Creating nodes + subscription...")

      # Build nodes and reverse map
      for name, (nid, _) in NODES_SPEC.items():
          node = self.opc_client.get_node(nid)
          self.nodes[name] = node
          self.nodeid_to_name[node.nodeid.to_string()] = name

      # Subscribe
      handler = self._SubHandler(self)
      self.subscription = self.opc_client.create_subscription(SUB_PUB_INTERVAL_MS, handler)
      for name, node in self.nodes.items():
          h = self.subscription.subscribe_data_change(node)
          self.sub_handles.append(h)
      print(f"[OPC] Subscribed to {len(self.sub_handles)} nodes.")

      # Publish initial snapshot for convenience
      self.publish_initial_snapshot()
  \<close>
\<close>

definition resolve_node :: "env \<Rightarrow> string \<times> string \<times> py_type \<Rightarrow> unit act" where
  \<comment> \<open>the body of the first loop, for one \<open>(name, (nid, _))\<close>\<close>
  "resolve_node env = (\<lambda>(name, (nid, _)).
     bnd (call (GetNode nid) (get_node env nid)) (\<lambda>node.
       block [
         modify (\<lambda>b. b\<lparr> nodes := AList.update name node (nodes b) \<rparr>),
         modify (\<lambda>b. b\<lparr> nodeid_to_name :=
                            AList.update (nodeid_to_string node) name (nodeid_to_name b) \<rparr>)]))"

definition subscribe_node :: "env \<Rightarrow> string \<times> node \<Rightarrow> unit act" where
  \<comment> \<open>the body of the second loop, for one \<open>(name, node)\<close>\<close>
  "subscribe_node env = (\<lambda>(name, node).
     bnd (call (SubscribeDataChange node) (subscribe_data_change env node)) (\<lambda>h.
       modify (\<lambda>b. b\<lparr> sub_handles := sub_handles b @ [h] \<rparr>)))"

definition start :: "env \<Rightarrow> config \<Rightarrow> unit act" where
  "start env cfg =
     block [
       call MqttConnect (mqtt_connect env),
       call MqttLoopThread (Inr ()),
       print OpcConnecting,
       call OpcConnect (opc_connect env),
       print OpcConnected,
       for_each (NODES_SPEC cfg) (resolve_node env),
       bnd (call (CreateSubscription (SUB_PUB_INTERVAL_MS cfg))
                 (create_subscription env (SUB_PUB_INTERVAL_MS cfg))) (\<lambda>sub.
         modify (\<lambda>b. b\<lparr> subscription := Some sub \<rparr>)),
       bnd (read nodes) (\<lambda>ns. for_each ns (subscribe_node env)),
       bnd (read sub_handles) (\<lambda>hs. print (SubscribedTo (int (length hs)))),
       publish_initial_snapshot env cfg]"

text \<open>
  \<^verbatim>\<open>
  def stop(self):
      # Graceful shutdown
      try:
          if self.subscription:
              for h in self.sub_handles:
                  try: self.subscription.unsubscribe(h)
                  except Exception: pass
              try: self.subscription.delete()
              except Exception: pass
          self.opc_client.disconnect()
          print("[OPC] Disconnected.")
      finally:
          try:
              self.mqtt.publish(f"{MQTT_ROOT}/status", json.dumps({"state":"offline"}), qos=1, retain=True)
              self.mqtt.disconnect()
              print("[MQTT] Disconnected.")
          except Exception:
              pass
  \<close>
\<close>

definition stop :: "env \<Rightarrow> config \<Rightarrow> unit act" where
  "stop env cfg =
     try_finally
       (block [
          bnd (read subscription) (\<lambda>sub.
            case sub of
              None \<Rightarrow> ret ()
            | Some _ \<Rightarrow>
                bnd (read sub_handles) (\<lambda>hs.
                  block [
                    for_each hs (\<lambda>h.
                      try_except (call (Unsubscribe h) (unsubscribe env h)) (\<lambda>e. ret ())),
                    try_except (call DeleteSubscription (delete_subscription env)) (\<lambda>e. ret ())])),
          call OpcDisconnect (opc_disconnect env),
          print OpcDisconnected])
       (try_except
          (block [
             bnd (pure (json_dumps [(''state'', PStr ''offline'')])) (\<lambda>text.
               call (Publish (MQTT_ROOT cfg @ ''/status'') text 1 True)
                    (mqtt_publish env (MQTT_ROOT cfg @ ''/status'') text 1 True)),
             call MqttDisconnect (mqtt_disconnect env),
             print MqttDisconnected])
          (\<lambda>e. ret ()))"

section \<open>States and sample environments\<close>

definition configured :: "config \<Rightarrow> bridge \<Rightarrow> bool" where
  \<comment> \<open>the topic maps are the ones \<^verbatim>\<open>__init__\<close> built; no method assigns them again\<close>
  "configured cfg b =
     (telemetry_topics b = telemetry_topics (init cfg) \<and>
      control_topics b = control_topics (init cfg) \<and>
      topic_to_name b = topic_to_name (init cfg))"

definition events :: "(error + 'a) \<times> bridge \<times> event list \<Rightarrow> event list" where
  "events r = snd (snd r)"

definition is_publish :: "event \<Rightarrow> bool" where
  "is_publish ev = (case ev of Publish t p q r \<Rightarrow> True | _ \<Rightarrow> False)"

text \<open>
  Sample servers, for running the model: \<open>quiet_env\<close> answers every call; its
  \<^verbatim>\<open>json.loads\<close> knows four texts and raises on every other. The variants below make
  one call raise.
\<close>

definition sample_loads :: "string \<Rightarrow> error + json" where
  \<open>sample_loads s =
     (if s = ''{"value": 5}'' then Inr (JDict [(''value'', PInt 5)])
      else if s = ''{"value": "on"}'' then Inr (JDict [(''value'', PStr ''on'')])
      else if s = ''{"state": "x"}'' then Inr (JDict [(''state'', PStr ''x'')])
      else if s = ''[1]'' then Inr JOther
      else Inl (ValueError ''Expecting value''))\<close>

definition quiet_env :: env where
  "quiet_env = \<lparr>
     json_loads = sample_loads,
     mqtt_connect = Inr (),
     opc_connect = Inr (),
     get_node = (\<lambda>nid. Inr \<lparr> nodeid_to_string = nid, node_str = ''Node('' @ nid @ '')'' \<rparr>),
     create_subscription = (\<lambda>ms. Inr ()),
     subscribe_data_change = (\<lambda>node. Inr 1),
     get_value = (\<lambda>node. Inr (PBool False)),
     set_value = (\<lambda>node dv. Inr ()),
     unsubscribe = (\<lambda>h. Inr ()),
     delete_subscription = Inr (),
     opc_disconnect = Inr (),
     mqtt_publish = (\<lambda>topic text qos retain. Inr ()),
     mqtt_disconnect = Inr (),
     stdout_write = (\<lambda>d. Inr ()) \<rparr>"

definition rejecting_env :: env where
  \<comment> \<open>the server rejects every write\<close>
  "rejecting_env = quiet_env \<lparr> set_value := (\<lambda>node dv. Inl (LibError ''BadTypeMismatch'')) \<rparr>"

definition sample_node :: "string \<Rightarrow> node" where
  "sample_node nid = \<lparr> nodeid_to_string = nid, node_str = ''Node('' @ nid @ '')'' \<rparr>"

definition publish_fails_env :: env where
  \<comment> \<open>the MQTT client raises on every publish\<close>
  "publish_fails_env =
     quiet_env \<lparr> mqtt_publish := (\<lambda>topic text qos retain. Inl (LibError ''publish failed'')) \<rparr>"

definition opc_fails_env :: env where
  \<comment> \<open>every call of the OPC UA teardown raises\<close>
  "opc_fails_env =
     quiet_env \<lparr> unsubscribe := (\<lambda>h. Inl (LibError ''BadSubscriptionIdInvalid'')),
                 delete_subscription := Inl (LibError ''BadSubscriptionIdInvalid''),
                 opc_disconnect := Inl (LibError ''connection lost'') \<rparr>"

definition subscribed_bridge :: bridge where
  "subscribed_bridge = (init user_config) \<lparr> subscription := Some (), sub_handles := [1, 2] \<rparr>"

definition unresolvable_env :: env where
  \<comment> \<open>the address of ActNo cannot be resolved\<close>
  \<open>unresolvable_env =
     quiet_env \<lparr> get_node := (\<lambda>nid.
       if nid = ''ns=3;s="DB_OP"."ActNo"'' then Inl (LibError ''BadNodeIdUnknown'')
       else get_node quiet_env nid) \<rparr>\<close>

definition s1_bridge :: bridge where
  "s1_bridge = (init user_config)
     \<lparr> nodes := [(''S1'', sample_node ''n1'')], nodeid_to_name := [(''n1'', ''S1'')] \<rparr>"

definition ascii_stdout_env :: env where
  \<comment> \<open>stdout encodes ASCII only: \<^verbatim>\<open>print\<close> raises on every line with the arrow\<close>
  "ascii_stdout_env =
     quiet_env \<lparr> stdout_write := (\<lambda>d. Inl (UnicodeEncodeError ''ordinal not in range(128)'')) \<rparr>"

section \<open>Properties\<close>

subsection \<open>Dictionaries and topic maps\<close>

lemma map_of_foldl_update:
  "map_of (foldl (\<lambda>d (k, v). AList.update k v d) d0 kvs) = map_of d0 ++ map_of (rev kvs)"
proof (induction kvs arbitrary: d0)
  case Nil
  then show ?case by simp
next
  case (Cons kv kvs)
  obtain k v where kv: "kv = (k, v)" by (cases kv)
  show ?case
    by (simp add: kv Cons.IH update_conv' map_add_def fun_eq_iff split: option.splits)
qed

lemma map_of_dict_of: "map_of (dict_of kvs) = map_of (rev kvs)"
  by (simp add: dict_of_def map_of_foldl_update)

lemma distinct_foldl_update:
  "distinct (map fst d0) \<Longrightarrow> distinct (map fst (foldl (\<lambda>d (k, v). AList.update k v d) d0 kvs))"
  by (induction kvs arbitrary: d0) (auto simp: distinct_update split: prod.splits)

lemma distinct_dict_of: "distinct (map fst (dict_of kvs))"
  by (simp add: dict_of_def distinct_foldl_update)

lemma keys_foldl_update:
  "fst ` set (foldl (\<lambda>d (k, v). AList.update k v d) d0 kvs) = fst ` set d0 \<union> fst ` set kvs"
proof (induction kvs arbitrary: d0)
  case Nil
  then show ?case by simp
next
  case (Cons kv kvs)
  obtain k v where kv: "kv = (k, v)" by (cases kv)
  have "fst ` set (AList.update k v d0) = insert k (fst ` set d0)"
    using dom_update [of k v d0] by (simp add: dom_map_of_conv_image_fst)
  then show ?case by (auto simp: kv Cons.IH)
qed

lemma keys_dict_of: "fst ` set (dict_of kvs) = fst ` set kvs"
  by (simp add: dict_of_def keys_foldl_update)

lemma map_of_comprehension:
  "map_of (dict_of (map (\<lambda>k. (k, f k)) ks)) k = (if k \<in> set ks then Some (f k) else None)"
proof -
  have "map_of (rev (map (\<lambda>k. (k, f k)) ks)) = (Some \<circ> f) |` set (rev ks)"
    unfolding rev_map by (rule map_of_map_restrict)
  then show ?thesis by (simp add: map_of_dict_of restrict_map_def)
qed

lemma telemetry_topics_init:
  "map_of (telemetry_topics (init cfg)) name =
     (if name \<in> fst ` set (NODES_SPEC cfg) then Some (telemetry_topic cfg name) else None)"
  using map_of_comprehension [of "telemetry_topic cfg" "map fst (NODES_SPEC cfg)" name]
  by (simp add: init_def Let_def del: map_map)

lemma control_topics_init:
  "map_of (control_topics (init cfg)) name =
     (if name \<in> fst ` set (NODES_SPEC cfg) then Some (control_topic cfg name) else None)"
  using map_of_comprehension [of "control_topic cfg" "map fst (NODES_SPEC cfg)" name]
  by (simp add: init_def Let_def del: map_map)

lemma telemetry_topic_inj: "telemetry_topic cfg n = telemetry_topic cfg m \<Longrightarrow> n = m"
  by (simp add: telemetry_topic_def)

lemma control_topic_inj: "control_topic cfg n = control_topic cfg m \<Longrightarrow> n = m"
  by (simp add: control_topic_def)

lemma control_not_telemetry: "control_topic cfg n \<noteq> telemetry_topic cfg m"
  by (simp add: control_topic_def telemetry_topic_def)

lemma topic_to_name_init:
  "(map_of (topic_to_name (init cfg)) t = Some name) =
     (name \<in> fst ` set (NODES_SPEC cfg) \<and> t = control_topic cfg name)"
proof -
  let ?ctrl = "control_topics (init cfg)"
  have t2n: "topic_to_name (init cfg) = dict_of (map (\<lambda>(k, v). (v, k)) ?ctrl)"
    by (simp add: init_def Let_def)
  have mem: "(n, c) \<in> set ?ctrl \<longleftrightarrow> n \<in> fst ` set (NODES_SPEC cfg) \<and> c = control_topic cfg n" for n c
  proof -
    have "distinct (map fst ?ctrl)" by (simp add: init_def Let_def distinct_dict_of)
    then have "(n, c) \<in> set ?ctrl \<longleftrightarrow> map_of ?ctrl n = Some c" by simp
    then show ?thesis by (auto simp: control_topics_init)
  qed
  show ?thesis
  proof
    assume "map_of (topic_to_name (init cfg)) t = Some name"
    then have "(t, name) \<in> set (rev (map (\<lambda>(k, v). (v, k)) ?ctrl))"
      by (simp only: t2n map_of_dict_of) (rule map_of_SomeD)
    then have "(name, t) \<in> set ?ctrl" by auto
    then show "name \<in> fst ` set (NODES_SPEC cfg) \<and> t = control_topic cfg name"
      by (simp add: mem)
  next
    assume a: "name \<in> fst ` set (NODES_SPEC cfg) \<and> t = control_topic cfg name"
    then have "(name, t) \<in> set ?ctrl" by (simp add: mem)
    then have "t \<in> fst ` set (rev (map (\<lambda>(k, v). (v, k)) ?ctrl))" by force
    then obtain n' where n': "map_of (rev (map (\<lambda>(k, v). (v, k)) ?ctrl)) t = Some n'"
      by (metis domD dom_map_of_conv_image_fst)
    then have "(t, n') \<in> set (rev (map (\<lambda>(k, v). (v, k)) ?ctrl))" by (rule map_of_SomeD)
    then have "(n', t) \<in> set ?ctrl" by auto
    then have "t = control_topic cfg n'" by (simp add: mem)
    with a have "n' = name" by (auto dest: control_topic_inj)
    with n' show "map_of (topic_to_name (init cfg)) t = Some name"
      by (simp add: t2n map_of_dict_of)
  qed
qed

subsection \<open>The message handler\<close>

lemmas act_defs = ret_def pure_def call_def print_def print_line_def read_def modify_def bnd_def
  try_except_def try_finally_def

lemma on_message_unknown_topic:
  assumes "configured cfg b"
    and "msg_topic msg \<notin> control_topic cfg ` fst ` set (NODES_SPEC cfg)"
  shows "on_message env cfg msg b = (Inr (), b, [])"
proof -
  have "map_of (topic_to_name b) (msg_topic msg) = None"
  proof (cases "map_of (topic_to_name b) (msg_topic msg)")
    case None
    then show ?thesis .
  next
    case (Some name)
    with assms(1) have "map_of (topic_to_name (init cfg)) (msg_topic msg) = Some name"
      by (simp add: configured_def)
    then have "msg_topic msg \<in> control_topic cfg ` fst ` set (NODES_SPEC cfg)"
      unfolding topic_to_name_init by blast
    with assms(2) show ?thesis by contradiction
  qed
  then show ?thesis
    by (simp add: on_message_def Let_def act_defs)
qed

lemma on_message_known_topic:
  assumes "configured cfg b"
    and "map_of (NODES_SPEC cfg) name = Some (nid, ty)"
    and "msg_topic msg = control_topic cfg name"
  shows "on_message env cfg msg b =
     (case map_of (nodes b) name of
        None \<Rightarrow> (Inr (), b, [Print (NodeNotReady name)])
      | Some node \<Rightarrow>
          (case parse_incoming_payload env (msg_payload msg) ty of
             Inl e \<Rightarrow>
               (stdout_write env (WriteErrorFor name e), b, [Print (WriteErrorFor name e)])
           | Inr value \<Rightarrow>
               (case variant_for value ty of
                  Inl e \<Rightarrow>
                    (stdout_write env (WriteErrorFor name e), b, [Print (WriteErrorFor name e)])
                | Inr v \<Rightarrow>
                    (let dv = \<lparr> Value = Some v, SourceTimestamp = None, ServerTimestamp = None \<rparr>
                     in case set_value env node dv of
                          Inl e \<Rightarrow>
                            (stdout_write env (WriteErrorFor name e), b,
                             [SetValue node dv, Print (WriteErrorFor name e)])
                        | Inr u \<Rightarrow>
                            (case stdout_write env (Written name value) of
                               Inl e \<Rightarrow>
                                 (stdout_write env (WriteErrorFor name e), b,
                                  [SetValue node dv, Print (Written name value),
                                   Print (WriteErrorFor name e)])
                             | Inr u \<Rightarrow>
                                 (Inr (), b, [SetValue node dv, Print (Written name value)]))))))"
proof -
  have "name \<in> fst ` set (NODES_SPEC cfg)"
    using assms(2) by (metis domI dom_map_of_conv_image_fst)
  then have "map_of (topic_to_name b) (msg_topic msg) = Some name"
    using assms(1,3) by (simp add: configured_def topic_to_name_init)
  then show ?thesis
    using assms(2)
    by (simp add: on_message_def Let_def act_defs subscript_def
             split: option.splits sum.splits)
qed

subsection \<open>Boolean decoding\<close>

text \<open>
  C1. For every input string, boolean decoding returns true exactly when the
  whitespace-stripped, lower-cased token is one of 1, true, t, on, yes, y; it returns
  false exactly when that token is one of 0, false, f, off, no, n; and it raises a
  decode error for every other token.
\<close>

theorem to_bool_tokens:
  "((to_bool (PStr s) = Inr True) =
      (lower (strip s) \<in> {''1'', ''true'', ''t'', ''on'', ''yes'', ''y''}))
   \<and> ((to_bool (PStr s) = Inr False) =
      (lower (strip s) \<in> {''0'', ''false'', ''f'', ''off'', ''no'', ''n''}))
   \<and> ((\<exists>e. to_bool (PStr s) = Inl e) =
      (lower (strip s) \<notin> {''1'', ''true'', ''t'', ''on'', ''yes'', ''y''} \<union>
                           {''0'', ''false'', ''f'', ''off'', ''no'', ''n''}))"
  by (auto simp: to_bool_def Let_def)

theorem to_bool_tokens_witness:
  "to_bool (PStr ''  Yes '') = Inr True \<and> to_bool (PStr ''OFF'') = Inr False
   \<and> (\<exists>e. to_bool (PStr ''maybe'') = Inl e)"
proof -
  have a: "lower (strip ''  Yes '') = ''yes''" by code_simp
  have b: "lower (strip ''OFF'') = ''off''" by code_simp
  have c: "lower (strip ''maybe'') = ''maybe''" by code_simp
  show ?thesis
    using to_bool_tokens [of "''  Yes ''"] to_bool_tokens [of "''OFF''"]
          to_bool_tokens [of "''maybe''"]
    by (simp add: a b c)
qed

subsection \<open>Topic bindings\<close>

text \<open>
  C7. For every root prefix and every table of friendly names: each name has one telemetry
  topic and one control topic (the two maps have exactly the names as keys, each once);
  two names with the same telemetry topic, or with the same control topic, are the same
  name; and no control topic is a telemetry topic.
\<close>

theorem topic_bindings_injective:
  "(\<forall>name \<in> fst ` set (NODES_SPEC cfg).
      map_of (telemetry_topics (init cfg)) name = Some (telemetry_topic cfg name) \<and>
      map_of (control_topics (init cfg)) name = Some (control_topic cfg name))
   \<and> distinct (map fst (telemetry_topics (init cfg)))
   \<and> distinct (map fst (control_topics (init cfg)))
   \<and> fst ` set (telemetry_topics (init cfg)) = fst ` set (NODES_SPEC cfg)
   \<and> fst ` set (control_topics (init cfg)) = fst ` set (NODES_SPEC cfg)
   \<and> (\<forall>n m t. map_of (telemetry_topics (init cfg)) n = Some t \<and>
                map_of (telemetry_topics (init cfg)) m = Some t \<longrightarrow> n = m)
   \<and> (\<forall>n m t. map_of (control_topics (init cfg)) n = Some t \<and>
                map_of (control_topics (init cfg)) m = Some t \<longrightarrow> n = m)
   \<and> (\<forall>n m t. \<not> (map_of (control_topics (init cfg)) n = Some t \<and>
                   map_of (telemetry_topics (init cfg)) m = Some t))"
proof -
  have keys_t: "fst ` set (telemetry_topics (init cfg)) = fst ` set (NODES_SPEC cfg)"
    by (simp add: init_def Let_def keys_dict_of image_image)
  have keys_c: "fst ` set (control_topics (init cfg)) = fst ` set (NODES_SPEC cfg)"
    by (simp add: init_def Let_def keys_dict_of image_image)
  have dist_t: "distinct (map fst (telemetry_topics (init cfg)))"
    by (simp add: init_def Let_def distinct_dict_of)
  have dist_c: "distinct (map fst (control_topics (init cfg)))"
    by (simp add: init_def Let_def distinct_dict_of)
  have inj_t: "n = m"
    if "map_of (telemetry_topics (init cfg)) n = Some t"
      and "map_of (telemetry_topics (init cfg)) m = Some t" for n m t
    using that by (auto simp: telemetry_topics_init split: if_splits dest: telemetry_topic_inj)
  have inj_c: "n = m"
    if "map_of (control_topics (init cfg)) n = Some t"
      and "map_of (control_topics (init cfg)) m = Some t" for n m t
    using that by (auto simp: control_topics_init split: if_splits dest: control_topic_inj)
  have disj: "\<not> (map_of (control_topics (init cfg)) n = Some t \<and>
                 map_of (telemetry_topics (init cfg)) m = Some t)" for n m t
    using control_not_telemetry [of cfg n m]
    by (auto simp: control_topics_init telemetry_topics_init split: if_splits)
  have one: "\<forall>name \<in> fst ` set (NODES_SPEC cfg).
      map_of (telemetry_topics (init cfg)) name = Some (telemetry_topic cfg name) \<and>
      map_of (control_topics (init cfg)) name = Some (control_topic cfg name)"
    by (simp add: telemetry_topics_init control_topics_init)
  have inj_t': "\<forall>n m t. map_of (telemetry_topics (init cfg)) n = Some t \<and>
                map_of (telemetry_topics (init cfg)) m = Some t \<longrightarrow> n = m"
    using inj_t by blast
  have inj_c': "\<forall>n m t. map_of (control_topics (init cfg)) n = Some t \<and>
                map_of (control_topics (init cfg)) m = Some t \<longrightarrow> n = m"
    using inj_c by blast
  have disj': "\<forall>n m t. \<not> (map_of (control_topics (init cfg)) n = Some t \<and>
                   map_of (telemetry_topics (init cfg)) m = Some t)"
    using disj by blast
  show ?thesis
    by (intro conjI one dist_t dist_c keys_t keys_c inj_t' inj_c' disj')
qed


theorem topic_bindings_injective_witness:
  "map_of (telemetry_topics (init user_config)) ''S1'' = Some ''imhotep/opc/tele/S1''
   \<and> map_of (control_topics (init user_config)) ''S1'' = Some ''imhotep/opc/cmd/S1''
   \<and> distinct (map fst (telemetry_topics (init user_config)))
   \<and> distinct (map fst (control_topics (init user_config)))"
proof -
  have mem: "''S1'' \<in> fst ` set (NODES_SPEC user_config)"
    by (simp add: user_config_def)
  have t: "telemetry_topic user_config ''S1'' = ''imhotep/opc/tele/S1''"
    by (simp add: telemetry_topic_def user_config_def)
  have c: "control_topic user_config ''S1'' = ''imhotep/opc/cmd/S1''"
    by (simp add: control_topic_def user_config_def)
  from topic_bindings_injective [of user_config] mem show ?thesis
    unfolding t [symmetric] c [symmetric] by blast
qed

subsection \<open>Messages on other topics, and before the nodes exist\<close>

text \<open>
  C5. A message whose topic is not one of the configured control topics is dropped: the
  handler returns without an exception, with the bridge as it was and no event at all (no
  write to the OPC UA server, nothing printed).
\<close>

theorem on_message_ignores_other_topics:
  assumes "configured cfg b"
    and "msg_topic msg \<notin> control_topic cfg ` fst ` set (NODES_SPEC cfg)"
  shows "on_message env cfg msg b = (Inr (), b, [])"
  using assms by (rule on_message_unknown_topic)

theorem on_message_ignores_other_topics_witness:
  "on_message quiet_env user_config
     \<lparr> msg_topic = ''imhotep/status'', msg_payload = Bytes ''online'' \<rparr> (init user_config)
   = (Inr (), init user_config, [])"
proof -
  have c: "configured user_config (init user_config)"
    by (simp add: configured_def)
  have t: "msg_topic \<lparr> msg_topic = ''imhotep/status'', msg_payload = Bytes ''online'' \<rparr>
             \<notin> control_topic user_config ` fst ` set (NODES_SPEC user_config)"
    by (simp add: control_topic_def user_config_def)
  show ?thesis
    using on_message_ignores_other_topics [OF c t] .
qed



subsection \<open>Errors inside the message handler\<close>

lemma on_message_state: 
  assumes "configured cfg b"
  shows "fst (snd (on_message env cfg msg b)) = b"
proof (cases "map_of (topic_to_name b) (msg_topic msg)")
  case None
  then show ?thesis
    by (simp add: on_message_def Let_def act_defs)
next
  case (Some name)
  with assms have "map_of (topic_to_name (init cfg)) (msg_topic msg) = Some name"
    by (simp add: configured_def)
  then have mem: "name \<in> fst ` set (NODES_SPEC cfg)"
    and top: "msg_topic msg = control_topic cfg name"
    by (simp_all add: topic_to_name_init)
  from mem obtain nid ty where "map_of (NODES_SPEC cfg) name = Some (nid, ty)"
    by (metis domD dom_map_of_conv_image_fst surj_pair)
  from on_message_known_topic [OF assms this top, of env] show ?thesis
    by (simp add: Let_def split: option.splits sum.splits)
qed

lemma on_message_raises_only_from_print:
  assumes "configured cfg b"
    and "fst (on_message env cfg msg b) = Inl x"
  shows "\<exists>name e. stdout_write env (WriteErrorFor name e) = Inl x"
proof (cases "map_of (topic_to_name b) (msg_topic msg)")
  case None
  with assms(2) show ?thesis
    by (simp add: on_message_def Let_def act_defs)
next
  case (Some name)
  with assms(1) have "map_of (topic_to_name (init cfg)) (msg_topic msg) = Some name"
    by (simp add: configured_def)
  then have mem: "name \<in> fst ` set (NODES_SPEC cfg)"
    and top: "msg_topic msg = control_topic cfg name"
    by (simp_all add: topic_to_name_init)
  from mem obtain nid ty where "map_of (NODES_SPEC cfg) name = Some (nid, ty)"
    by (metis domD dom_map_of_conv_image_fst surj_pair)
  from on_message_known_topic [OF assms(1) this top, of env] assms(2) show ?thesis
    by (auto simp: Let_def split: option.splits sum.splits)
qed

text \<open>
  C6, as the code has it. For a message on a recognized control topic whose node exists:
  when decoding the payload against the declared type of the variable fails, nothing is
  written and the handler prints the error; when the write is rejected, the handler prints
  the error after the one attempt. The decode or write error is caught in both cases and
  the bridge is unchanged. The \<^verbatim>\<open>print\<close> of the diagnostic stands in the
  \<^verbatim>\<open>except\<close> clause, inside no \<^verbatim>\<open>try\<close>: the handler returns normally when stdout takes
  the line, and the only exception that can leave the handler, for any message, is the
  one this \<^verbatim>\<open>print\<close> raises.
  The claim as stated (nothing ever propagates out of the handler) fails when stdout
  cannot encode the diagnostic line: see the counterexample below.
\<close>

theorem on_message_catches_decode_and_write_errors:
  assumes "configured cfg b"
  shows "(map_of (NODES_SPEC cfg) name = Some (nid, ty) \<and> msg_topic msg = control_topic cfg name
         \<and> map_of (nodes b) name = Some node \<longrightarrow>
        (\<forall>e. parse_incoming_payload env (msg_payload msg) ty = Inl e \<longrightarrow>
           on_message env cfg msg b =
             (stdout_write env (WriteErrorFor name e), b, [Print (WriteErrorFor name e)]))
      \<and> (\<forall>val v e.
           parse_incoming_payload env (msg_payload msg) ty = Inr val \<and>
           variant_for val ty = Inr v \<and>
           set_value env node
             \<lparr> Value = Some v, SourceTimestamp = None, ServerTimestamp = None \<rparr> = Inl e \<longrightarrow>
           on_message env cfg msg b =
             (stdout_write env (WriteErrorFor name e), b,
              [SetValue node \<lparr> Value = Some v, SourceTimestamp = None, ServerTimestamp = None \<rparr>,
               Print (WriteErrorFor name e)])))
    \<and> ((\<forall>d. stdout_write env d = Inr ()) \<longrightarrow> fst (on_message env cfg msg b) = Inr ())
    \<and> (\<forall>x. fst (on_message env cfg msg b) = Inl x \<longrightarrow>
          (\<exists>name e. stdout_write env (WriteErrorFor name e) = Inl x))
    \<and> fst (snd (on_message env cfg msg b)) = b"
proof (intro conjI impI allI)
  fix e
  assume a: "map_of (NODES_SPEC cfg) name = Some (nid, ty) \<and>
    msg_topic msg = control_topic cfg name \<and> map_of (nodes b) name = Some node"
    and p: "parse_incoming_payload env (msg_payload msg) ty = Inl e"
  from a have k: "map_of (NODES_SPEC cfg) name = Some (nid, ty)"
    and t: "msg_topic msg = control_topic cfg name"
    and n: "map_of (nodes b) name = Some node" by simp_all
  show "on_message env cfg msg b =
      (stdout_write env (WriteErrorFor name e), b, [Print (WriteErrorFor name e)])"
    using on_message_known_topic [OF assms k t, of env] n p by simp
next
  fix val v e
  assume a: "map_of (NODES_SPEC cfg) name = Some (nid, ty) \<and>
    msg_topic msg = control_topic cfg name \<and> map_of (nodes b) name = Some node"
    and p: "parse_incoming_payload env (msg_payload msg) ty = Inr val \<and>
           variant_for val ty = Inr v \<and>
           set_value env node
             \<lparr> Value = Some v, SourceTimestamp = None, ServerTimestamp = None \<rparr> = Inl e"
  from a have k: "map_of (NODES_SPEC cfg) name = Some (nid, ty)"
    and t: "msg_topic msg = control_topic cfg name"
    and n: "map_of (nodes b) name = Some node" by simp_all
  show "on_message env cfg msg b =
             (stdout_write env (WriteErrorFor name e), b,
              [SetValue node \<lparr> Value = Some v, SourceTimestamp = None, ServerTimestamp = None \<rparr>,
               Print (WriteErrorFor name e)])"
    using on_message_known_topic [OF assms k t, of env] n p by (simp add: Let_def)
next
  assume ok: "\<forall>d. stdout_write env d = Inr ()"
  show "fst (on_message env cfg msg b) = Inr ()"
  proof (cases "fst (on_message env cfg msg b)")
    case (Inl x)
    from on_message_raises_only_from_print [OF assms Inl] ok show ?thesis by auto
  next
    case (Inr u)
    then show ?thesis by simp
  qed
next
  fix x
  assume "fst (on_message env cfg msg b) = Inl x"
  with assms show "\<exists>name e. stdout_write env (WriteErrorFor name e) = Inl x"
    by (rule on_message_raises_only_from_print)
next
  show "fst (snd (on_message env cfg msg b)) = b"
    using assms by (rule on_message_state)
qed

lemma s1_control_facts:
  \<open>configured user_config s1_bridge\<close>
  \<open>map_of (NODES_SPEC user_config) ''S1'' = Some (''ns=3;s="B_Bay1"'', PyBool)\<close>
  \<open>''imhotep/opc/cmd/S1'' = control_topic user_config ''S1''\<close>
  \<open>map_of (nodes s1_bridge) ''S1'' = Some (sample_node ''n1'')\<close>
  by (simp_all add: configured_def s1_bridge_def user_config_def control_topic_def)

lemma s1_payload_samples:
  "parse_incoming_payload rejecting_env (Bytes ''maybe'') PyBool =
     Inl (ValueError (''Cannot parse boolean from '' @ [CHR 0x27] @ ''maybe'' @ [CHR 0x27]))"
  "parse_incoming_payload ascii_stdout_env (Bytes ''maybe'') PyBool =
     Inl (ValueError (''Cannot parse boolean from '' @ [CHR 0x27] @ ''maybe'' @ [CHR 0x27]))"
  "parse_incoming_payload rejecting_env (Bytes ''on'') PyBool = Inr (PBool True)"
  "variant_for (PBool True) PyBool = Inr (Variant (PBool True) (Some Boolean))"
  by code_simp+

lemma sample_env_outcomes:
  "stdout_write rejecting_env = (\<lambda>d. Inr ())"
  "set_value rejecting_env = (\<lambda>node dv. Inl (LibError ''BadTypeMismatch''))"
  "stdout_write ascii_stdout_env = (\<lambda>d. Inl (UnicodeEncodeError ''ordinal not in range(128)''))"
  by (simp_all add: rejecting_env_def ascii_stdout_env_def quiet_env_def)

theorem on_message_catches_decode_and_write_errors_witness:
  "on_message rejecting_env user_config
     \<lparr> msg_topic = ''imhotep/opc/cmd/S1'', msg_payload = Bytes ''maybe'' \<rparr> s1_bridge
   = (Inr (), s1_bridge,
      [Print (WriteErrorFor ''S1''
         (ValueError (''Cannot parse boolean from '' @ [CHR 0x27] @ ''maybe'' @ [CHR 0x27])))])
   \<and> on_message rejecting_env user_config
     \<lparr> msg_topic = ''imhotep/opc/cmd/S1'', msg_payload = Bytes ''on'' \<rparr> s1_bridge
   = (Inr (), s1_bridge,
      [SetValue (sample_node ''n1'')
         \<lparr> Value = Some (Variant (PBool True) (Some Boolean)), SourceTimestamp = None,
           ServerTimestamp = None \<rparr>,
       Print (WriteErrorFor ''S1'' (LibError ''BadTypeMismatch''))])"
  using on_message_catches_decode_and_write_errors [OF s1_control_facts(1), of "''S1''" _ PyBool
        "\<lparr> msg_topic = ''imhotep/opc/cmd/S1'', msg_payload = Bytes ''maybe'' \<rparr>"
        "sample_node ''n1''" rejecting_env]
      on_message_catches_decode_and_write_errors [OF s1_control_facts(1), of "''S1''" _ PyBool
        "\<lparr> msg_topic = ''imhotep/opc/cmd/S1'', msg_payload = Bytes ''on'' \<rparr>"
        "sample_node ''n1''" rejecting_env]
      s1_control_facts(2,3,4) s1_payload_samples sample_env_outcomes
  by simp

theorem on_message_print_raises_counterexample:
  "on_message ascii_stdout_env user_config
     \<lparr> msg_topic = ''imhotep/opc/cmd/S1'', msg_payload = Bytes ''maybe'' \<rparr> s1_bridge
   = (Inl (UnicodeEncodeError ''ordinal not in range(128)''), s1_bridge,
      [Print (WriteErrorFor ''S1''
         (ValueError (''Cannot parse boolean from '' @ [CHR 0x27] @ ''maybe'' @ [CHR 0x27])))])"
  using on_message_known_topic [OF s1_control_facts(1,2), of
        "\<lparr> msg_topic = ''imhotep/opc/cmd/S1'', msg_payload = Bytes ''maybe'' \<rparr>" ascii_stdout_env]
      s1_control_facts(3,4) s1_payload_samples sample_env_outcomes
  by simp

subsection \<open>JSON or plain text\<close>

lemma dropWhile_strip: "dropWhile isspace (strip s) = strip s"
proof (cases "strip s = []")
  case True
  then show ?thesis by simp
next
  case False
  let ?xs = "dropWhile isspace s"
  have split: "?xs = strip s @ rev (takeWhile isspace (rev ?xs))"
  proof -
    have "rev (takeWhile isspace (rev ?xs) @ dropWhile isspace (rev ?xs)) = rev (rev ?xs)"
      by (simp only: takeWhile_dropWhile_id)
    then show ?thesis by (simp only: strip_def rev_append rev_rev_ident)
  qed
  have ne: "?xs \<noteq> []"
    using False unfolding strip_def by (metis dropWhile.simps(1) rev.simps(1))
  then have "\<not> isspace (hd ?xs)" by (rule hd_dropWhile)
  moreover from split False have "hd ?xs = hd (strip s)" by (metis hd_append2)
  ultimately have "\<not> isspace (hd (strip s))" by simp
  with False show ?thesis by (cases "strip s") simp_all
qed

lemma strip_strip: "strip (strip s) = strip s"
proof -
  have "strip (strip s) = rev (dropWhile isspace (rev (strip s)))"
    by (simp add: strip_def [of "strip s"] dropWhile_strip)
  also have "\<dots> = strip s"
    by (simp add: strip_def)
  finally show ?thesis .
qed

text \<open>
  C2. For every payload and expected type: when the stripped text of the payload parses
  (\<^verbatim>\<open>json.loads\<close>) as a dictionary with a member \<^verbatim>\<open>value\<close>, that member is what is
  converted to the expected type; in every other case (the text does not parse, parses as
  a list or a scalar, or as a dictionary without that member) the whole text is converted
  as plain text. For the types bool and int, converting the stripped text is converting
  the text as it came.
\<close>

theorem parse_incoming_payload_json_or_text:
  "(json_loads env (strip (decode_utf8_ignore payload)) = Inr (JDict obj) \<and>
      map_of obj ''value'' = Some v \<longrightarrow>
        parse_incoming_payload env payload ty = typed_value v ty)
   \<and> ((\<forall>obj v. \<not> (json_loads env (strip (decode_utf8_ignore payload)) = Inr (JDict obj) \<and>
                     map_of obj ''value'' = Some v)) \<longrightarrow>
        parse_incoming_payload env payload ty =
          typed_value (PStr (strip (decode_utf8_ignore payload))) ty)
   \<and> (ty \<noteq> PyOther \<longrightarrow>
        typed_value (PStr (strip (decode_utf8_ignore payload))) ty =
          typed_value (PStr (decode_utf8_ignore payload)) ty)"
proof (intro conjI impI)
  assume "json_loads env (strip (decode_utf8_ignore payload)) = Inr (JDict obj) \<and>
      map_of obj ''value'' = Some v"
  then show "parse_incoming_payload env payload ty = typed_value v ty"
    by (simp add: parse_incoming_payload_def typed_value_def Let_def)
next
  assume no: "\<forall>obj v. \<not> (json_loads env (strip (decode_utf8_ignore payload)) = Inr (JDict obj) \<and>
                     map_of obj ''value'' = Some v)"
  show "parse_incoming_payload env payload ty =
          typed_value (PStr (strip (decode_utf8_ignore payload))) ty"
  proof (cases "json_loads env (strip (decode_utf8_ignore payload))")
    case (Inl e)
    then show ?thesis
      by (simp add: parse_incoming_payload_def typed_value_def Let_def)
  next
    case (Inr j)
    show ?thesis
    proof (cases j)
      case (JDict obj)
      with Inr no have "map_of obj ''value'' = None"
        by (cases "map_of obj ''value''") auto
      with Inr JDict show ?thesis
        by (simp add: parse_incoming_payload_def typed_value_def Let_def)
    next
      case JOther
      with Inr show ?thesis
        by (simp add: parse_incoming_payload_def typed_value_def Let_def)
    qed
  qed
next
  assume "ty \<noteq> PyOther"
  then show "typed_value (PStr (strip (decode_utf8_ignore payload))) ty =
          typed_value (PStr (decode_utf8_ignore payload)) ty"
    by (cases ty) (simp_all add: typed_value_def to_bool_def strip_strip)
qed

lemma parse_samples:
  \<open>strip '' {"value": "on"} '' = ''{"value": "on"}''\<close>
  \<open>strip ''{"state": "x"}'' = ''{"state": "x"}''\<close>
  \<open>strip ''[1]'' = ''[1]''\<close>
  \<open>json_loads quiet_env ''{"value": "on"}'' = Inr (JDict [(''value'', PStr ''on'')])\<close>
  \<open>json_loads quiet_env ''{"state": "x"}'' = Inr (JDict [(''state'', PStr ''x'')])\<close>
  \<open>json_loads quiet_env ''[1]'' = Inr JOther\<close>
  \<open>typed_value (PStr ''on'') PyBool = Inr (PBool True)\<close>
  \<open>typed_value (PStr ''  YES'') PyBool = Inr (PBool True)\<close>
  by code_simp+

lemma typed_value_other: "typed_value x PyOther = Inr x"
  by (simp add: typed_value_def)

theorem parse_incoming_payload_json_or_text_witness:
  \<open>parse_incoming_payload quiet_env (Bytes '' {"value": "on"} '') PyBool = Inr (PBool True)
   \<and> parse_incoming_payload quiet_env (Bytes ''{"state": "x"}'') PyOther =
       Inr (PStr ''{"state": "x"}'')
   \<and> parse_incoming_payload quiet_env (Bytes ''[1]'') PyOther = Inr (PStr ''[1]'')
   \<and> typed_value (PStr (strip ''  YES'')) PyBool = Inr (PBool True)\<close>
proof -
  have a: \<open>parse_incoming_payload quiet_env (Bytes '' {"value": "on"} '') PyBool = Inr (PBool True)\<close>
    using parse_incoming_payload_json_or_text
            [of quiet_env \<open>Bytes '' {"value": "on"} ''\<close> \<open>[(''value'', PStr ''on'')]\<close>
                \<open>PStr ''on''\<close> PyBool]
    by (simp add: parse_samples)
  have b: \<open>parse_incoming_payload quiet_env (Bytes ''{"state": "x"}'') PyOther =
       Inr (PStr ''{"state": "x"}'')\<close>
    using parse_incoming_payload_json_or_text [of quiet_env \<open>Bytes ''{"state": "x"}''\<close> _ _ PyOther]
    by (auto simp: parse_samples typed_value_other)
  have c: \<open>parse_incoming_payload quiet_env (Bytes ''[1]'') PyOther = Inr (PStr ''[1]'')\<close>
    using parse_incoming_payload_json_or_text [of quiet_env \<open>Bytes ''[1]''\<close> _ _ PyOther]
    by (simp add: parse_samples typed_value_other)
  have d: \<open>typed_value (PStr (strip ''  YES'')) PyBool = Inr (PBool True)\<close>
    using parse_incoming_payload_json_or_text [of quiet_env \<open>Bytes ''  YES''\<close> _ _ PyBool]
    by (simp add: parse_samples)
  from a b c d show ?thesis by simp
qed

subsection \<open>Integer decoding\<close>

lemma underscore_no_digit: "\<not> is_digit CHR ''_''"
  by (simp add: is_digit_def)

lemma sign_no_digit: "\<not> is_digit CHR ''-''" "\<not> is_digit CHR ''+''"
  by (simp_all add: is_digit_def)

lemma adjacent_underscores_Cons:
  "adjacent_underscores (c # cs) =
     ((c = CHR ''_'' \<and> cs \<noteq> [] \<and> hd cs = CHR ''_'') \<or> adjacent_underscores cs)"
  by (cases cs) auto

lemma scan_digits_accepts:
  "(\<exists>v m. scan_digits ds acc n prev = Some (v, m, [])) =
     (list_all (\<lambda>c. is_digit c \<or> c = CHR ''_'') ds \<and> \<not> adjacent_underscores ds \<and>
      (ds \<noteq> [] \<longrightarrow> is_digit (last ds)) \<and> (prev \<or> (ds \<noteq> [] \<and> is_digit (hd ds))))"
proof (induction ds arbitrary: acc n prev)
  case Nil
  then show ?case by simp
next
  case (Cons c cs)
  show ?case
  proof (cases "is_digit c")
    case True
    then have "c \<noteq> CHR ''_''" using underscore_no_digit by auto
    with True show ?thesis
      by (simp add: Cons.IH adjacent_underscores_Cons del: adjacent_underscores.simps)
  next
    case False
    show ?thesis
    proof (cases "c = CHR ''_'' \<and> prev")
      case True
      have hd_digit: "is_digit (hd cs)"
        if "cs \<noteq> []" "list_all (\<lambda>c. is_digit c \<or> c = CHR ''_'') cs" "hd cs \<noteq> CHR ''_''"
        using that by (cases cs) auto
      from True False show ?thesis
        using underscore_no_digit hd_digit
        by (auto simp: Cons.IH adjacent_underscores_Cons simp del: adjacent_underscores.simps)
    next
      case no: False
      with False show ?thesis
        using underscore_no_digit
        by (auto simp: adjacent_underscores_Cons simp del: adjacent_underscores.simps)
    qed
  qed
qed

lemma scan_digits_count:
  "scan_digits ds acc n prev = Some (v, m, []) \<Longrightarrow> m = n + digit_count ds"
proof (induction ds arbitrary: acc n prev)
  case Nil
  then show ?case by (simp add: digit_count_def split: if_splits)
next
  case (Cons c cs)
  show ?case
  proof (cases "is_digit c")
    case True
    with Cons.prems have "scan_digits cs (10 * acc + digit_val c) (n + 1) True = Some (v, m, [])"
      by simp
    from Cons.IH [OF this] True show ?thesis by (simp add: digit_count_def)
  next
    case False
    with Cons.prems have "scan_digits cs acc n False = Some (v, m, [])"
      by (simp split: if_splits)
    from Cons.IH [OF this] False show ?thesis by (simp add: digit_count_def)
  qed
qed

lemma scan_digits_groups:
  "(\<exists>v m. scan_digits ds 0 0 False = Some (v, m, [])) = digit_groups ds"
  unfolding scan_digits_accepts digit_groups_def by auto

lemma sign_and_digits_literal:
  "int_literal t = digit_groups (snd (sign_and_digits t))"
  by (cases t) (auto simp: int_literal_def sign_and_digits_def digit_groups_def)

lemma sign_and_digits_count: "digit_count (snd (sign_and_digits t)) = digit_count t"
  using sign_no_digit
  by (cases t) (auto simp: sign_and_digits_def digit_count_def)

lemma read_int_accepts:
  "(\<exists>i. read_int a = Inr i) =
     (int_literal a \<and> digit_count a \<le> int_max_str_digits)"
proof
  assume "\<exists>i. read_int a = Inr i"
  then obtain v n where sc: "scan_digits (snd (sign_and_digits a)) 0 0 False = Some (v, n, [])"
    and le: "n \<le> int_max_str_digits"
    by (auto simp: read_int_def split: option.splits if_splits)
  from sc have "digit_groups (snd (sign_and_digits a))"
    using scan_digits_groups by blast
  moreover from scan_digits_count [OF sc] have "n = digit_count a"
    by (simp add: sign_and_digits_count)
  ultimately show "int_literal a \<and> digit_count a \<le> int_max_str_digits"
    using le by (simp add: sign_and_digits_literal)
next
  assume a: "int_literal a \<and> digit_count a \<le> int_max_str_digits"
  then have "digit_groups (snd (sign_and_digits a))"
    by (simp add: sign_and_digits_literal)
  then obtain v m where sc: "scan_digits (snd (sign_and_digits a)) 0 0 False = Some (v, m, [])"
    using scan_digits_groups by blast
  from scan_digits_count [OF sc] have "m = digit_count a"
    by (simp add: sign_and_digits_count)
  with a sc show "\<exists>i. read_int a = Inr i"
    by (simp add: read_int_def)
qed

lemma literal_chars:
  "int_literal x \<Longrightarrow>
     \<forall>c \<in> set x. is_digit c \<or> c = CHR ''_'' \<or> c = CHR ''+'' \<or> c = CHR ''-''"
  by (cases x) (auto simp: int_literal_def digit_groups_def list_all_iff split: if_splits)

lemma digit_char_props:
  assumes "0 \<le> d" "d < 10"
  shows "is_digit (digit_char d)" and "digit_val (digit_char d) = d"
proof -
  have "of_char (digit_char d) = (48 + d) mod 256"
    by (simp add: digit_char_def of_char_of)
  with assms have "of_char (digit_char d) = 48 + d" by simp
  then show "is_digit (digit_char d)" and "digit_val (digit_char d) = d"
    using assms by (simp_all add: is_digit_def digit_val_def)
qed

lemma ends_in_set:
  "xs \<noteq> [] \<Longrightarrow> \<forall>c \<in> set xs. \<not> P c \<Longrightarrow> \<not> P (hd xs) \<and> \<not> P (last xs)"
  by simp

lemma lit_char_props:
  "is_digit c \<or> c = CHR ''_'' \<or> c = CHR ''+'' \<or> c = CHR ''-'' \<Longrightarrow>
     \<not> ascii_space c \<and> \<not> isspace c \<and> c \<noteq> CHR ''?'' \<and> (of_char c :: int) < 127"
  by (auto simp: is_digit_def ascii_space_def isspace_def)

lemma of_char_bounds: "0 \<le> (of_char c :: int)" "(of_char c :: int) < 256"
  by (metis of_char_mod_256 pos_mod_sign zero_less_numeral)
    (metis of_char_mod_256 pos_mod_bound zero_less_numeral)

lemma ascii_char_plain: "(of_char c :: int) < 127 \<Longrightarrow> ascii_char (of_char c) = c"
  by (simp add: ascii_char_def of_char_bounds)

lemma latin_no_decimal: "127 \<le> n \<Longrightarrow> n < 256 \<Longrightarrow> decimal_value n = None"
  by (simp add: decimal_value_def decimal_zeros_def)

lemma ascii_space_codes:
  "ascii_space c \<Longrightarrow> unicode_space (of_char c) \<and> (of_char c :: int) < 127"
  by (auto simp: ascii_space_def unicode_space_def)

lemma space_codes: "unicode_space (of_char c) = isspace c"
proof -
  have b: "(of_char c :: int) < 256" by (rule of_char_bounds)
  have e: "((of_char c :: int) = of_char d) = (c = d)" for d by simp
  show ?thesis
    unfolding unicode_space_def isspace_def
    using b e [of "CHR 0x09"] e [of "CHR 0x0A"] e [of "CHR 0x0B"] e [of "CHR 0x0C"]
      e [of "CHR 0x0D"] e [of "CHR 0x1C"] e [of "CHR 0x1D"] e [of "CHR 0x1E"] e [of "CHR 0x1F"]
      e [of "CHR 0x20"] e [of "CHR 0x85"] e [of "CHR 0xA0"]
    by auto
qed

lemma ascii_char_lit:
  assumes "is_digit (ascii_char (of_char c)) \<or> ascii_char (of_char c) = CHR ''_'' \<or>
       ascii_char (of_char c) = CHR ''+'' \<or> ascii_char (of_char c) = CHR ''-''"
  shows "ascii_char (of_char c) = c"
proof (cases "(of_char c :: int) < 127")
  case True
  then show ?thesis by (rule ascii_char_plain)
next
  case False
  then have "decimal_value (of_char c) = None"
    using of_char_bounds(2) [of c] by (simp add: latin_no_decimal)
  with False have "ascii_char (of_char c) = CHR '' '' \<or> ascii_char (of_char c) = CHR ''?''"
    by (simp add: ascii_char_def)
  moreover have "isspace CHR '' ''" by (simp add: isspace_def)
  ultimately show ?thesis
    using lit_char_props [OF assms] by auto
qed

lemma char_facts:
  "\<forall>c::char. unicode_space (of_char c) = isspace c"
  "\<forall>c::char. is_digit c \<or> c = CHR ''_'' \<or> c = CHR ''+'' \<or> c = CHR ''-'' \<longrightarrow>
     \<not> ascii_space c \<and> \<not> isspace c \<and> c \<noteq> CHR ''?'' \<and> ascii_char (of_char c) = c"
  "\<forall>c::char. (is_digit (ascii_char (of_char c)) \<or> ascii_char (of_char c) = CHR ''_'' \<or>
       ascii_char (of_char c) = CHR ''+'' \<or> ascii_char (of_char c) = CHR ''-'') \<longrightarrow>
     ascii_char (of_char c) = c"
  "\<forall>c::char. ascii_space c \<longrightarrow> unicode_space (of_char c) \<and> (of_char c :: int) < 127"
proof -
  show "\<forall>c::char. unicode_space (of_char c) = isspace c"
    by (simp add: space_codes)
  show "\<forall>c::char. is_digit c \<or> c = CHR ''_'' \<or> c = CHR ''+'' \<or> c = CHR ''-'' \<longrightarrow>
     \<not> ascii_space c \<and> \<not> isspace c \<and> c \<noteq> CHR ''?'' \<and> ascii_char (of_char c) = c"
    using lit_char_props ascii_char_plain by blast
  show "\<forall>c::char. (is_digit (ascii_char (of_char c)) \<or> ascii_char (of_char c) = CHR ''_'' \<or>
       ascii_char (of_char c) = CHR ''+'' \<or> ascii_char (of_char c) = CHR ''-'') \<longrightarrow>
     ascii_char (of_char c) = c"
    using ascii_char_lit by blast
  show "\<forall>c::char. ascii_space c \<longrightarrow> unicode_space (of_char c) \<and> (of_char c :: int) < 127"
    using ascii_space_codes by blast
qed

lemma keeps_unstripped:
  "x \<in> set s \<Longrightarrow> \<not> P x \<Longrightarrow> x \<in> set (rev (dropWhile P (rev (dropWhile P s))))"
proof -
  assume x: "x \<in> set s" and p: "\<not> P x"
  have drop: "y \<in> set (dropWhile P xs)" if "y \<in> set xs" "\<not> P y" for y xs
  proof -
    have "set xs = set (takeWhile P xs) \<union> set (dropWhile P xs)"
      by (metis set_append takeWhile_dropWhile_id)
    moreover have "y \<notin> set (takeWhile P xs)"
      using that(2) by (auto dest: set_takeWhileD)
    ultimately show ?thesis using that(1) by auto
  qed
  from drop [OF x p] have "x \<in> set (rev (dropWhile P s))" by simp
  from drop [OF this p] show ?thesis by simp
qed

lemma last_dropWhile: "dropWhile P xs \<noteq> [] \<Longrightarrow> last (dropWhile P xs) = last xs"
  by (induction xs) auto

lemma stripped_ends:
  assumes "r = rev (dropWhile P (rev (dropWhile P s)))" and "r \<noteq> []"
  shows "\<not> P (hd r)" and "\<not> P (last r)"
proof -
  let ?d = "dropWhile P s"
  let ?e = "dropWhile P (rev ?d)"
  from assms have e: "?e \<noteq> []" by simp
  then have d: "?d \<noteq> []" by (metis dropWhile.simps(1) rev.simps(1))
  from e have "\<not> P (hd ?e)" by (rule hd_dropWhile)
  with assms e show "\<not> P (last r)" by (simp add: last_rev)
  from d have "\<not> P (hd ?d)" by (rule hd_dropWhile)
  moreover from last_dropWhile [OF e] d have "last ?e = hd ?d" by (simp add: last_rev)
  ultimately show "\<not> P (hd r)" using assms e by (simp add: hd_rev)
qed

lemma strip_ends_id:
  assumes "s = [] \<or> (\<not> P (hd s) \<and> \<not> P (last s))"
  shows "rev (dropWhile P (rev (dropWhile P s))) = s"
proof (cases "s = []")
  case True
  then show ?thesis by simp
next
  case False
  with assms have h: "\<not> P (hd s)" and l: "\<not> P (last s)" by simp_all
  from False h have "dropWhile P s = s" by (cases s) simp_all
  moreover from False l have "dropWhile P (rev s) = rev s"
    by (cases s rule: rev_cases) simp_all
  ultimately show ?thesis by simp
qed

lemma decimal_value_range: "decimal_value cp = Some d \<Longrightarrow> 0 \<le> d \<and> d < 10"
  by (auto simp: decimal_value_def find_Some_iff)

lemma to_ascii_map:
  "CHR ''?'' \<notin> set (map ascii_char u) \<Longrightarrow> to_ascii u = map ascii_char u"
  by (induction u) (auto simp: ascii_char_def split: option.splits)

lemma to_ascii_question:
  "CHR ''?'' \<in> set (map ascii_char u) \<Longrightarrow> CHR ''?'' \<in> set (to_ascii u)"
  by (induction u) (auto simp: ascii_char_def split: option.splits if_splits)

lemma ascii_char_space: "ascii_space (ascii_char cp) \<Longrightarrow> unicode_space cp"
proof (cases "0 \<le> cp \<and> cp < 127")
  case True
  assume sp: "ascii_space (ascii_char cp)"
  from True have "of_char (ascii_char cp) = cp"
    by (simp add: ascii_char_def of_char_of)
  with sp char_facts(4) show ?thesis by metis
next
  case False
  assume sp: "ascii_space (ascii_char cp)"
  show ?thesis
  proof (rule ccontr)
    assume ns: "\<not> unicode_space cp"
    show False
    proof (cases "decimal_value cp")
      case None
      with False ns have "ascii_char cp = CHR ''?''" by (auto simp: ascii_char_def)
      with sp show False by (simp add: ascii_space_def)
    next
      case (Some d)
      from decimal_value_range [OF Some] have "is_digit (digit_char d)"
        by (simp add: digit_char_props)
      with char_facts(2) have "\<not> ascii_space (digit_char d)" by blast
      moreover from False ns Some have "ascii_char cp = digit_char d"
        by (auto simp: ascii_char_def)
      ultimately show False using sp by simp
    qed
  qed
qed

lemma int_of_unicode_accepts:
  assumes "u = [] \<or> (\<not> unicode_space (hd u) \<and> \<not> unicode_space (last u))"
  shows "(\<exists>v. int_of_unicode u = Inr v) =
     (int_literal (map ascii_char u) \<and> digit_count (map ascii_char u) \<le> int_max_str_digits)"
proof
  assume "\<exists>v. int_of_unicode u = Inr v"
  then have lit: "int_literal (ascii_strip (to_ascii u))"
    and cnt: "digit_count (ascii_strip (to_ascii u)) \<le> int_max_str_digits"
    by (simp_all add: int_of_unicode_def read_int_accepts)
  have q: "\<not> ascii_space CHR ''?''" by (simp add: ascii_space_def)
  from literal_chars [OF lit] have "CHR ''?'' \<notin> set (ascii_strip (to_ascii u))"
    by (auto simp: is_digit_def)
  then have "CHR ''?'' \<notin> set (to_ascii u)"
    unfolding ascii_strip_def
    using keeps_unstripped [where P = ascii_space and x = "CHR ''?''", OF _ q] by blast
  then have "CHR ''?'' \<notin> set (map ascii_char u)"
    using to_ascii_question by blast
  then have m: "to_ascii u = map ascii_char u" by (rule to_ascii_map)
  have "map ascii_char u = [] \<or>
      (\<not> ascii_space (hd (map ascii_char u)) \<and> \<not> ascii_space (last (map ascii_char u)))"
    using assms by (auto simp: hd_map last_map dest: ascii_char_space)
  then have "ascii_strip (map ascii_char u) = map ascii_char u"
    unfolding ascii_strip_def by (rule strip_ends_id)
  with lit cnt m
  show "int_literal (map ascii_char u) \<and> digit_count (map ascii_char u) \<le> int_max_str_digits"
    by simp
next
  assume a: "int_literal (map ascii_char u) \<and>
      digit_count (map ascii_char u) \<le> int_max_str_digits"
  from literal_chars [of "map ascii_char u"] a char_facts(2)
  have ch: "\<forall>c \<in> set (map ascii_char u). \<not> ascii_space c \<and> c \<noteq> CHR ''?''"
    by blast
  then have "CHR ''?'' \<notin> set (map ascii_char u)" by blast
  then have m: "to_ascii u = map ascii_char u" by (rule to_ascii_map)
  have "map ascii_char u = [] \<or>
      (\<not> ascii_space (hd (map ascii_char u)) \<and> \<not> ascii_space (last (map ascii_char u)))"
    using ends_in_set [of "map ascii_char u" ascii_space] ch by blast
  then have "ascii_strip (map ascii_char u) = map ascii_char u"
    unfolding ascii_strip_def by (rule strip_ends_id)
  with a m show "\<exists>v. int_of_unicode u = Inr v"
    by (simp add: int_of_unicode_def read_int_accepts)
qed

lemma decode_int_accepts:
  "(\<exists>v. decode_int t = Inr v) =
     (int_literal (map ascii_char (unicode_strip t)) \<and>
      digit_count (map ascii_char (unicode_strip t)) \<le> int_max_str_digits)"
proof -
  have "unicode_strip t = [] \<or>
      (\<not> unicode_space (hd (unicode_strip t)) \<and> \<not> unicode_space (last (unicode_strip t)))"
    using stripped_ends [OF unicode_strip_def [of t]] by blast
  from int_of_unicode_accepts [OF this] show ?thesis
    by (simp add: decode_int_def)
qed

lemma codes_strip: "codes (strip s) = unicode_strip (codes s)"
proof -
  have "unicode_space \<circ> of_char = isspace"
    using char_facts(1) by (auto simp: fun_eq_iff)
  then have d: "dropWhile unicode_space (map of_char xs) = map of_char (dropWhile isspace xs)"
    for xs :: string
    by (simp add: dropWhile_map)
  show ?thesis
    by (simp add: codes_def strip_def unicode_strip_def d rev_map)
qed

lemma literal_codes:
  "int_literal (map ascii_char (codes x)) = int_literal x"
  "int_literal x \<Longrightarrow> map ascii_char (codes x) = x"
proof -
  show r: "map ascii_char (codes x) = x" if "int_literal x"
  proof -
    from literal_chars [OF that] char_facts(2)
    have "\<forall>c \<in> set x. ascii_char (of_char c) = c" by blast
    then show ?thesis by (simp add: codes_def map_idI)
  qed
  show "int_literal (map ascii_char (codes x)) = int_literal x"
  proof
    assume l: "int_literal (map ascii_char (codes x))"
    from literal_chars [OF l] char_facts(3)
    have "\<forall>c \<in> set x. ascii_char (of_char c) = c"
      by (auto simp: codes_def)
    then have "map ascii_char (codes x) = x" by (simp add: codes_def map_idI)
    with l show "int_literal x" by simp
  next
    assume "int_literal x"
    with r show "int_literal (map ascii_char (codes x))" by simp
  qed
qed

lemma typed_value_decode_int:
  "typed_value (PStr s) PyInt =
     (case decode_int (codes s) of
        Inl f \<Rightarrow> Inl (int_error (strip s) f)
      | Inr v \<Rightarrow> Inr (PInt v))"
  by (simp add: typed_value_def int_of_text_def decode_int_def codes_strip split: sum.splits)

lemma typed_value_int_accepts:
  "(\<exists>v. typed_value (PStr s) PyInt = Inr v) =
     (int_literal (strip s) \<and> digit_count (strip s) \<le> int_max_str_digits)"
proof -
  have "(\<exists>v. typed_value (PStr s) PyInt = Inr v) = (\<exists>v. decode_int (codes s) = Inr v)"
    unfolding typed_value_decode_int by (auto split: sum.splits)
  also have "\<dots> = (int_literal (map ascii_char (codes (strip s))) \<and>
      digit_count (map ascii_char (codes (strip s))) \<le> int_max_str_digits)"
    unfolding decode_int_accepts by (simp add: codes_strip)
  also have "\<dots> = (int_literal (strip s) \<and> digit_count (strip s) \<le> int_max_str_digits)"
    using literal_codes [of "strip s"] by auto
  finally show ?thesis .
qed

lemma no_underscores_not_adjacent: "list_all is_digit ds \<Longrightarrow> \<not> adjacent_underscores ds"
  using underscore_no_digit
  by (induction ds) (auto simp: adjacent_underscores_Cons simp del: adjacent_underscores.simps(1))

lemma digits_are_groups: "list_all is_digit ds \<Longrightarrow> ds \<noteq> [] \<Longrightarrow> digit_groups ds"
proof -
  assume a: "list_all is_digit ds" and ne: "ds \<noteq> []"
  from a have "list_all (\<lambda>c. is_digit c \<or> c = CHR ''_'') ds"
    by (simp add: list_all_iff)
  moreover from a ne have "is_digit (hd ds)" "is_digit (last ds)"
    by (simp_all add: list_all_iff)
  ultimately show ?thesis
    using a ne by (simp add: digit_groups_def no_underscores_not_adjacent)
qed

lemma base10_is_literal: "base10_signed t \<Longrightarrow> int_literal t"
  by (cases t) (auto simp: base10_signed_def int_literal_def digits_are_groups split: if_splits)

lemma scan_all_digits:
  "list_all is_digit xs \<Longrightarrow> xs \<noteq> [] \<Longrightarrow>
     scan_digits xs acc n prev =
       Some (foldl (\<lambda>a c. 10 * a + digit_val c) acc xs, n + int (length xs), [])"
proof (induction xs arbitrary: acc n prev)
  case Nil
  then show ?case by simp
next
  case (Cons c cs)
  from Cons.prems have c: "is_digit c" and cs: "list_all is_digit cs" by simp_all
  show ?case
  proof (cases "cs = []")
    case True
    with c show ?thesis by simp
  next
    case False
    from Cons.IH [OF cs False] c show ?thesis by simp
  qed
qed

lemma str_digits_value:
  "0 \<le> n \<Longrightarrow> list_all is_digit (str_digits n) \<and> str_digits n \<noteq> [] \<and>
     foldl (\<lambda>a c. 10 * a + digit_val c) 0 (str_digits n) = n"
proof (induction n rule: str_digits.induct)
  case (1 i)
  show ?case
  proof (cases "i < 10")
    case True
    with "1.prems" show ?thesis
      by (simp add: str_digits.simps [of i] digit_char_props)
  next
    case False
    then have "0 \<le> i div 10" by simp
    with "1.IH" False have ih: "list_all is_digit (str_digits (i div 10))"
      "foldl (\<lambda>a c. 10 * a + digit_val c) 0 (str_digits (i div 10)) = i div 10"
      by simp_all
    have d: "0 \<le> i mod 10" "i mod 10 < 10" by simp_all
    from False ih d show ?thesis
      by (simp add: str_digits.simps [of i] digit_char_props)
  qed
qed

lemma str_digits_length:
  "0 \<le> i \<Longrightarrow> i < 10 ^ k \<Longrightarrow> 0 < k \<Longrightarrow> length (str_digits i) \<le> k"
proof (induction k arbitrary: i)
  case 0
  then show ?case by simp
next
  case (Suc k)
  show ?case
  proof (cases "i < 10")
    case True
    then show ?thesis by (simp add: str_digits.simps [of i])
  next
    case False
    with Suc.prems have k: "0 < k" by (cases k) auto
    from Suc.prems have b: "i div 10 < 10 ^ k" by simp
    from Suc.prems have a: "0 \<le> i div 10" by simp
    from Suc.IH [OF a b k] have "length (str_digits (i div 10)) \<le> k" .
    with False show ?thesis by (simp add: str_digits.simps [of i])
  qed
qed

lemma strip_no_space: "\<forall>c \<in> set s. \<not> isspace c \<Longrightarrow> strip s = s"
proof (cases s rule: rev_cases)
  case Nil
  then show ?thesis by (simp add: strip_def)
next
  case (snoc xs x)
  assume a: "\<forall>c \<in> set s. \<not> isspace c"
  then have "dropWhile isspace s = s" by (cases s) simp_all
  moreover from a snoc have "dropWhile isspace (rev s) = rev s" by simp
  ultimately show ?thesis by (simp add: strip_def)
qed

lemma digit_no_space: "is_digit c \<Longrightarrow> \<not> isspace c"
  by (auto simp: is_digit_def isspace_def)

lemma str_int_no_space: "\<forall>c \<in> set (str_int n). \<not> isspace c"
proof -
  have dg: "\<forall>c \<in> set (str_digits m). \<not> isspace c" if "0 \<le> m" for m
    using str_digits_value [OF that] by (auto simp: list_all_iff dest: digit_no_space)
  have minus: "\<not> isspace CHR ''-''" by (simp add: isspace_def)
  show ?thesis
  proof (cases "n < 0")
    case True
    then have "0 \<le> - n" by simp
    from dg [OF this] minus True show ?thesis by (simp add: str_int_def)
  next
    case False
    then have "0 \<le> n" by simp
    from dg [OF this] False show ?thesis by (simp add: str_int_def)
  qed
qed

lemma strip_str_int: "strip (str_int n) = str_int n"
  by (rule strip_no_space) (rule str_int_no_space)

lemma int_of_unicode_plain:
  assumes "\<forall>c \<in> set x. is_digit c \<or> c = CHR ''_'' \<or> c = CHR ''+'' \<or> c = CHR ''-''"
  shows "int_of_unicode (codes x) = read_int x"
proof -
  from assms char_facts(2)
  have ch: "\<forall>c \<in> set x. \<not> ascii_space c \<and> c \<noteq> CHR ''?'' \<and> ascii_char (of_char c) = c"
    by blast
  then have m: "map ascii_char (codes x) = x" by (simp add: codes_def map_idI)
  with ch have "CHR ''?'' \<notin> set (map ascii_char (codes x))" by auto
  then have a: "to_ascii (codes x) = x" using m by (simp add: to_ascii_map)
  have "x = [] \<or> (\<not> ascii_space (hd x) \<and> \<not> ascii_space (last x))"
    using ends_in_set [of x ascii_space] ch by blast
  then have "ascii_strip x = x"
    unfolding ascii_strip_def by (rule strip_ends_id)
  with a show ?thesis by (simp add: int_of_unicode_def)
qed

lemma int_of_text_str_int:
  assumes "- (2 ^ 31) \<le> n" and "n < 2 ^ 31"
  shows "int_of_text (str_int n) = Inr n"
proof -
  define m where "m = (if n < 0 then - n else n)"
  have m0: "0 \<le> m" and m10: "m < 10 ^ 10"
    using assms by (simp_all add: m_def)
  from str_digits_value [OF m0] have dg: "list_all is_digit (str_digits m)"
    and ne: "str_digits m \<noteq> []"
    and v: "foldl (\<lambda>a c. 10 * a + digit_val c) 0 (str_digits m) = m"
    by simp_all
  have len: "length (str_digits m) \<le> 10"
    using m0 m10 by (rule str_digits_length) simp
  have sc: "scan_digits (str_digits m) 0 0 False = Some (m, int (length (str_digits m)), [])"
    using scan_all_digits [OF dg ne, of 0 0 False] v by simp
  have sd: "sign_and_digits (str_int n) = (n < 0, str_digits m)"
  proof (cases "n < 0")
    case True
    then show ?thesis by (simp add: str_int_def sign_and_digits_def m_def)
  next
    case False
    from ne obtain c cs where cs: "str_digits m = c # cs" by (cases "str_digits m") auto
    with dg have "is_digit c" by simp
    then have "c \<noteq> CHR ''-''" "c \<noteq> CHR ''+''" using sign_no_digit by auto
    with False cs show ?thesis by (simp add: str_int_def sign_and_digits_def m_def)
  qed
  have mn: "(if n < 0 then - m else m) = n"
    by (simp add: m_def)
  have "str_int n = (if n < 0 then CHR ''-'' # str_digits m else str_digits m)"
    by (simp add: str_int_def m_def)
  with dg have "\<forall>c \<in> set (str_int n). is_digit c \<or> c = CHR ''_'' \<or> c = CHR ''+'' \<or> c = CHR ''-''"
    by (auto simp: list_all_iff)
  then have "int_of_unicode (codes (str_int n)) = read_int (str_int n)"
    by (rule int_of_unicode_plain)
  also have "\<dots> = Inr n"
    using len by (simp add: read_int_def sd sc int_max_str_digits_def mn)
  finally show ?thesis by (simp add: int_of_text_def)
qed

lemma sum_fails: "(\<exists>e. x = Inl e) = (\<not> (\<exists>v. x = Inr v))"
  by (cases x) auto

text \<open>
  C9, as the code has it. Integer decoding (\<^verbatim>\<open>int(str(raw).strip())\<close>) accepts exactly
  the texts that, stripped of the whitespace around them, are an optional sign followed by
  decimal digits, at most 4300 of them, in which single underscores may stand between
  digits; it fails on every other text. The digits may be the decimal digits of any
  script: \<open>ascii_char\<close> reads each as the ASCII digit of its value. This holds for texts of
  any code points (\<open>decode_int\<close>), and so for the texts of the model (\<open>typed_value\<close>, which
  is \<open>decode_int\<close> on the code points of its text), where the only digits are the ASCII
  ones. Every plain base-10 signed text of at most 4300 digits is among the accepted
  ones. For every integer of the 32-bit range, the decimal text of the integer decodes to
  that integer, and writing the decoded value back as text (\<^verbatim>\<open>str\<close>, or
  \<^verbatim>\<open>json.dumps\<close>) gives the same text.
  The claim as stated (exactly base-10 signed text) fails at the text 1_0, which decodes
  to 10: see the counterexample below.
\<close>

theorem int_decoding_accepts_and_round_trips:
  "((\<exists>v. decode_int t = Inr v) =
      (int_literal (map ascii_char (unicode_strip t)) \<and>
       digit_count (map ascii_char (unicode_strip t)) \<le> int_max_str_digits))
   \<and> ((\<exists>f. decode_int t = Inl f) =
      (\<not> (int_literal (map ascii_char (unicode_strip t)) \<and>
          digit_count (map ascii_char (unicode_strip t)) \<le> int_max_str_digits)))
   \<and> typed_value (PStr s) PyInt =
        (case decode_int (codes s) of
           Inl f \<Rightarrow> Inl (int_error (strip s) f)
         | Inr v \<Rightarrow> Inr (PInt v))
   \<and> ((\<exists>v. typed_value (PStr s) PyInt = Inr v) =
      (int_literal (strip s) \<and> digit_count (strip s) \<le> int_max_str_digits))
   \<and> ((\<exists>e. typed_value (PStr s) PyInt = Inl e) =
      (\<not> (int_literal (strip s) \<and> digit_count (strip s) \<le> int_max_str_digits)))
   \<and> (base10_signed (strip s) \<and> digit_count (strip s) \<le> int_max_str_digits \<longrightarrow>
        (\<exists>v. typed_value (PStr s) PyInt = Inr v))
   \<and> (- (2 ^ 31) \<le> n \<and> n < 2 ^ 31 \<longrightarrow>
        typed_value (PStr (str_int n)) PyInt = Inr (PInt n) \<and>
        py_str (PInt n) = str_int n \<and> json_value (PInt n) = Inr (str_int n))"
proof -
  let ?wide = "int_literal (map ascii_char (unicode_strip t)) \<and>
       digit_count (map ascii_char (unicode_strip t)) \<le> int_max_str_digits"
  let ?ok = "int_literal (strip s) \<and> digit_count (strip s) \<le> int_max_str_digits"
  have w1: "(\<exists>v. decode_int t = Inr v) = ?wide"
    by (rule decode_int_accepts)
  have w2: "(\<exists>f. decode_int t = Inl f) = (\<not> ?wide)"
    unfolding w1 [symmetric] by (rule sum_fails)
  have link: "typed_value (PStr s) PyInt =
        (case decode_int (codes s) of
           Inl f \<Rightarrow> Inl (int_error (strip s) f)
         | Inr v \<Rightarrow> Inr (PInt v))"
    by (rule typed_value_decode_int)
  have one: "(\<exists>v. typed_value (PStr s) PyInt = Inr v) = ?ok"
    by (rule typed_value_int_accepts)
  have two: "(\<exists>e. typed_value (PStr s) PyInt = Inl e) = (\<not> ?ok)"
    unfolding one [symmetric] by (rule sum_fails)
  have three: "base10_signed (strip s) \<and> digit_count (strip s) \<le> int_max_str_digits \<longrightarrow>
      (\<exists>v. typed_value (PStr s) PyInt = Inr v)"
    unfolding one by (auto dest: base10_is_literal)
  have four: "- (2 ^ 31) \<le> n \<and> n < 2 ^ 31 \<longrightarrow>
      typed_value (PStr (str_int n)) PyInt = Inr (PInt n) \<and>
        py_str (PInt n) = str_int n \<and> json_value (PInt n) = Inr (str_int n)"
    by (simp add: typed_value_def strip_str_int int_of_text_str_int)
  show ?thesis
    by (intro conjI) (rule w1, rule w2, rule link, rule one, rule two, rule three, rule four)
qed

lemma digit_count_replicate: "is_digit c \<Longrightarrow> digit_count (replicate k c) = int k"
  by (induction k) (simp_all add: digit_count_def)

lemma long_text_digits: "digit_count (strip (replicate 4301 CHR ''1'')) = 4301"
proof -
  have d: "is_digit CHR ''1''" by (simp add: is_digit_def)
  then have "\<forall>c \<in> set (replicate 4301 CHR ''1''). \<not> isspace c"
    by (auto dest: digit_no_space)
  then have "strip (replicate 4301 CHR ''1'') = replicate 4301 CHR ''1''"
    by (rule strip_no_space)
  with digit_count_replicate [OF d, of 4301] show ?thesis by simp
qed

lemma int_text_samples:
  "int_literal (strip '' -12_3 '')"
  "digit_count (strip '' -12_3 '') = 3"
  "\<not> int_literal (strip ''five'')"
  "base10_signed (strip '' +42'')"
  "int_literal (strip '' +42'')"
  "digit_count (strip '' +42'') = 2"
  by code_simp+

text \<open>
  Texts beyond the code points of the model: the Arabic-Indic digits one and two with an
  underscore between them, after a space and before an ideographic space; the circled
  digit one, which is no decimal digit; the fullwidth digits four and two after a minus
  sign.
\<close>

lemma int_unicode_samples:
  "int_literal (map ascii_char (unicode_strip [0x20, 0x661, 0x5F, 0x662, 0x3000]))"
  "digit_count (map ascii_char (unicode_strip [0x20, 0x661, 0x5F, 0x662, 0x3000])) = 2"
  "\<not> int_literal (map ascii_char (unicode_strip [0x2460]))"
  "decode_int [0x20, 0x661, 0x5F, 0x662, 0x3000] = Inr 12"
  "decode_int [0x2460] = Inl InvalidLiteral"
  "decode_int [0x2D, 0xFF14, 0xFF12] = Inr (- 42)"
  "decode_int (codes ''1_0'') = Inr 10"
  by code_simp+

theorem int_decoding_accepts_and_round_trips_witness:
  "(\<exists>v. typed_value (PStr '' -12_3 '') PyInt = Inr v)
   \<and> (\<exists>e. typed_value (PStr ''five'') PyInt = Inl e)
   \<and> (\<exists>v. typed_value (PStr '' +42'') PyInt = Inr v)
   \<and> (\<exists>e. typed_value (PStr (replicate 4301 CHR ''1'')) PyInt = Inl e)
   \<and> typed_value (PStr (str_int (- 2147483648))) PyInt = Inr (PInt (- 2147483648))
   \<and> (\<exists>v. decode_int [0x20, 0x661, 0x5F, 0x662, 0x3000] = Inr v)
   \<and> (\<exists>f. decode_int [0x2460] = Inl f)"
proof -
  have a: "\<exists>v. typed_value (PStr '' -12_3 '') PyInt = Inr v"
    using int_decoding_accepts_and_round_trips
      [of "[]" "'' -12_3 ''" 0,
        THEN conjunct2, THEN conjunct2, THEN conjunct2, THEN conjunct1]
    by (simp add: int_text_samples int_max_str_digits_def)
  have b: "\<exists>e. typed_value (PStr ''five'') PyInt = Inl e"
    using int_decoding_accepts_and_round_trips
      [of "[]" "''five''" 0,
        THEN conjunct2, THEN conjunct2, THEN conjunct2, THEN conjunct2, THEN conjunct1]
    by (simp add: int_text_samples)
  have c: "\<exists>v. typed_value (PStr '' +42'') PyInt = Inr v"
    using int_decoding_accepts_and_round_trips
      [of "[]" "'' +42''" 0,
        THEN conjunct2, THEN conjunct2, THEN conjunct2, THEN conjunct2, THEN conjunct2, THEN conjunct1]
    by (simp add: int_text_samples int_max_str_digits_def)
  have d: "\<exists>e. typed_value (PStr (replicate 4301 CHR ''1'')) PyInt = Inl e"
    using int_decoding_accepts_and_round_trips
      [of "[]" "replicate 4301 CHR ''1''" 0,
        THEN conjunct2, THEN conjunct2, THEN conjunct2, THEN conjunct2, THEN conjunct1]
    by (simp add: long_text_digits int_max_str_digits_def)
  have e: "typed_value (PStr (str_int (- 2147483648))) PyInt = Inr (PInt (- 2147483648))"
    using int_decoding_accepts_and_round_trips
      [of "[]" "''0''" "- 2147483648",
        THEN conjunct2, THEN conjunct2, THEN conjunct2, THEN conjunct2, THEN conjunct2, THEN conjunct2]
    by simp
  have f: "\<exists>v. decode_int [0x20, 0x661, 0x5F, 0x662, 0x3000] = Inr v"
    using int_decoding_accepts_and_round_trips
      [of "[0x20, 0x661, 0x5F, 0x662, 0x3000]" "''0''" 0, THEN conjunct1]
    by (simp add: int_unicode_samples(1,2) int_max_str_digits_def)
  have g: "\<exists>f. decode_int [0x2460] = Inl f"
    using int_decoding_accepts_and_round_trips
      [of "[0x2460]" "''0''" 0,
        THEN conjunct2, THEN conjunct1]
    by (simp add: int_unicode_samples(3))
  from a b c d e f g show ?thesis by simp
qed

theorem int_decoding_underscore_counterexample:
  "parse_incoming_payload quiet_env (Bytes ''1_0'') PyInt = Inr (PInt 10)
   \<and> typed_value (PStr ''1_0'') PyInt = Inr (PInt 10)
   \<and> \<not> base10_signed (strip ''1_0'')"
  by code_simp

subsection \<open>Shutdown\<close>

lemma unsubscribe_loop:
  "for_each hs (\<lambda>h. try_except (call (Unsubscribe h) (unsubscribe env h)) (\<lambda>e. ret ())) b =
     (Inr (), b, map Unsubscribe hs)"
  by (induction hs) (simp_all add: act_defs split: sum.splits)

lemma offline_text: \<open>json_dumps [(''state'', PStr ''offline'')] = Inr ''{"state": "offline"}''\<close>
  by code_simp

lemma stop_trace:
  \<open>stop env cfg b =
     (opc_disconnect env, b,
      (case subscription b of
         None \<Rightarrow> []
       | Some sub \<Rightarrow> map Unsubscribe (sub_handles b) @ [DeleteSubscription])
      @ [OpcDisconnect]
      @ (case opc_disconnect env of Inl e \<Rightarrow> [] | Inr u \<Rightarrow> [Print OpcDisconnected])
      @ [Publish (MQTT_ROOT cfg @ ''/status'') ''{"state": "offline"}'' 1 True]
      @ (case mqtt_publish env (MQTT_ROOT cfg @ ''/status'') ''{"state": "offline"}'' 1 True of
           Inl e \<Rightarrow> []
         | Inr u \<Rightarrow>
             MqttDisconnect #
             (case mqtt_disconnect env of Inl e \<Rightarrow> [] | Inr u \<Rightarrow> [Print MqttDisconnected])))\<close>
  by (simp add: stop_def unsubscribe_loop offline_text act_defs
           split: option.splits sum.splits)

text \<open>
  C3, as the code has it. Shutdown attempts, in this order and whatever the outcome of the
  steps before: one unsubscribe for each handle and the deletion of the subscription (when
  there is a subscription), the disconnect of the OPC UA session, and the retained publish
  of the offline status to the status topic. The disconnect of the MQTT client is attempted
  after the publish when the publish did not raise: the two calls share one
  \<^verbatim>\<open>try\<close> block, so a publish that raises skips it. An exception of the OPC UA
  disconnect leaves \<^verbatim>\<open>stop\<close> after the MQTT steps; no other does.
  The claim as stated (every later step is attempted after any failure) fails when the
  publish raises: see the counterexample below.
\<close>

theorem stop_attempts:
  \<open>events (stop env cfg b) =
      (case subscription b of
         None \<Rightarrow> []
       | Some sub \<Rightarrow> map Unsubscribe (sub_handles b) @ [DeleteSubscription])
      @ [OpcDisconnect]
      @ (case opc_disconnect env of Inl e \<Rightarrow> [] | Inr u \<Rightarrow> [Print OpcDisconnected])
      @ [Publish (MQTT_ROOT cfg @ ''/status'') ''{"state": "offline"}'' 1 True]
      @ (case mqtt_publish env (MQTT_ROOT cfg @ ''/status'') ''{"state": "offline"}'' 1 True of
           Inl e \<Rightarrow> []
         | Inr u \<Rightarrow>
             MqttDisconnect #
             (case mqtt_disconnect env of Inl e \<Rightarrow> [] | Inr u \<Rightarrow> [Print MqttDisconnected]))
   \<and> fst (stop env cfg b) = opc_disconnect env
   \<and> fst (snd (stop env cfg b)) = b\<close>
  by (simp add: stop_trace events_def)

lemma teardown_samples:
  "subscription subscribed_bridge = Some ()"
  "sub_handles subscribed_bridge = [1, 2]"
  "MQTT_ROOT user_config = ''imhotep''"
  "opc_disconnect opc_fails_env = Inl (LibError ''connection lost'')"
  "mqtt_publish opc_fails_env = (\<lambda>topic text qos retain. Inr ())"
  "mqtt_disconnect opc_fails_env = Inr ()"
  "opc_disconnect publish_fails_env = Inr ()"
  "mqtt_publish publish_fails_env = (\<lambda>topic text qos retain. Inl (LibError ''publish failed''))"
  by (simp_all add: subscribed_bridge_def user_config_def opc_fails_env_def
        publish_fails_env_def quiet_env_def)

theorem stop_attempts_witness:
  \<open>events (stop opc_fails_env user_config subscribed_bridge) =
     [Unsubscribe 1, Unsubscribe 2, DeleteSubscription, OpcDisconnect,
      Publish ''imhotep/status'' ''{"state": "offline"}'' 1 True,
      MqttDisconnect, Print MqttDisconnected]
   \<and> fst (stop opc_fails_env user_config subscribed_bridge) = Inl (LibError ''connection lost'')\<close>
  using stop_attempts [of opc_fails_env user_config subscribed_bridge]
  by (simp add: teardown_samples)

theorem stop_skips_disconnect_counterexample:
  \<open>events (stop publish_fails_env user_config subscribed_bridge) =
     [Unsubscribe 1, Unsubscribe 2, DeleteSubscription, OpcDisconnect, Print OpcDisconnected,
      Publish ''imhotep/status'' ''{"state": "offline"}'' 1 True]
   \<and> MqttDisconnect \<notin> set (events (stop publish_fails_env user_config subscribed_bridge))\<close>
  by (simp add: stop_trace events_def teardown_samples)

subsection \<open>Startup\<close>

lemma keys_update: "fst ` set (AList.update k v al) = insert k (fst ` set al)"
  using dom_update [of k v al] by (simp add: dom_map_of_conv_image_fst)

lemma resolve_node_ok:
  "get_node env nid = Inr node \<Longrightarrow>
     resolve_node env (name, nid, ty) b =
       (Inr (), b\<lparr> nodes := AList.update name node (nodes b),
                   nodeid_to_name := AList.update (nodeid_to_string node) name (nodeid_to_name b) \<rparr>,
        [GetNode nid])"
  by (simp add: resolve_node_def act_defs)

lemma resolve_node_fails:
  "get_node env nid = Inl e \<Longrightarrow> resolve_node env (name, nid, ty) b = (Inl e, b, [GetNode nid])"
  by (simp add: resolve_node_def act_defs)

lemma for_each_Cons_ok:
  "body x b = (Inr (), b1, evs) \<Longrightarrow>
     for_each (x # xs) body b =
       (case for_each xs body b1 of (r, b2, evs') \<Rightarrow> (r, b2, evs @ evs'))"
  by (simp add: act_defs)

lemma for_each_Cons_fails:
  "body x b = (Inl e, b1, evs) \<Longrightarrow> for_each (x # xs) body b = (Inl e, b1, evs)"
  by (simp add: act_defs)

lemma resolution_stops_at_failure:
  assumes "\<forall>x \<in> set pre. \<exists>node. get_node env (fst (snd x)) = Inr node"
    and "get_node env nid = Inl e"
  shows "\<exists>b'. for_each (pre @ (name, nid, ty) # post) (resolve_node env) b
          = (Inl e, b', map (\<lambda>x. GetNode (fst (snd x))) pre @ [GetNode nid])
        \<and> fst ` set (nodes b') = fst ` set (nodes b) \<union> fst ` set pre
        \<and> subscription b' = subscription b \<and> sub_handles b' = sub_handles b"
  using assms(1)
proof (induction pre arbitrary: b)
  case Nil
  have "resolve_node env (name, nid, ty) b = (Inl e, b, [GetNode nid])"
    by (rule resolve_node_fails [OF assms(2)])
  then have "for_each ((name, nid, ty) # post) (resolve_node env) b = (Inl e, b, [GetNode nid])"
    by (rule for_each_Cons_fails [where body = "resolve_node env"])
  then show ?case by (simp del: for_each.simps)
next
  case (Cons x pre)
  obtain n0 nid0 t0 where x: "x = (n0, nid0, t0)" by (cases x) auto
  from Cons.prems x obtain node where node: "get_node env nid0 = Inr node" by auto
  define b1 where "b1 = b\<lparr> nodes := AList.update n0 node (nodes b),
          nodeid_to_name := AList.update (nodeid_to_string node) n0 (nodeid_to_name b) \<rparr>"
  from Cons.prems have "\<forall>x \<in> set pre. \<exists>node. get_node env (fst (snd x)) = Inr node" by simp
  from Cons.IH [OF this, of b1]
  obtain b' where b': "for_each (pre @ (name, nid, ty) # post) (resolve_node env) b1
          = (Inl e, b', map (\<lambda>x. GetNode (fst (snd x))) pre @ [GetNode nid])"
    and rest: "fst ` set (nodes b') = fst ` set (nodes b1) \<union> fst ` set pre"
      "subscription b' = subscription b1" "sub_handles b' = sub_handles b1"
    by auto
  have step: "resolve_node env x b = (Inr (), b1, [GetNode nid0])"
    unfolding x b1_def by (rule resolve_node_ok [OF node])
  have run: "for_each ((x # pre) @ (name, nid, ty) # post) (resolve_node env) b
     = (Inl e, b', map (\<lambda>x. GetNode (fst (snd x))) (x # pre) @ [GetNode nid])"
    using for_each_Cons_ok [where body = "resolve_node env", OF step,
        of "pre @ (name, nid, ty) # post"] b'
    by (simp add: x del: for_each.simps)
  have keys: "fst ` set (nodes b') = fst ` set (nodes b) \<union> fst ` set (x # pre)"
    using rest(1) by (simp add: b1_def keys_update x)
  have same: "subscription b' = subscription b" "sub_handles b' = sub_handles b"
    using rest(2,3) by (simp_all add: b1_def)
  from run keys same show ?case by blast
qed

lemma start_resolution_failure:
  assumes "mqtt_connect env = Inr ()" and "opc_connect env = Inr ()"
    and "NODES_SPEC cfg = pre @ (name, nid, ty) # post"
    and "\<forall>x \<in> set pre. \<exists>node. get_node env (fst (snd x)) = Inr node"
    and "get_node env nid = Inl e"
  shows "\<exists>b'. start env cfg b =
           (Inl e, b',
            [MqttConnect, MqttLoopThread, Print OpcConnecting, OpcConnect, Print OpcConnected]
            @ map (\<lambda>x. GetNode (fst (snd x))) pre @ [GetNode nid])
        \<and> fst ` set (nodes b') = fst ` set (nodes b) \<union> fst ` set pre
        \<and> subscription b' = subscription b \<and> sub_handles b' = sub_handles b"
proof -
  from resolution_stops_at_failure [OF assms(4,5), of name ty post b]
  obtain b' where b': "for_each (pre @ (name, nid, ty) # post) (resolve_node env) b
          = (Inl e, b', map (\<lambda>x. GetNode (fst (snd x))) pre @ [GetNode nid])"
    and rest: "fst ` set (nodes b') = fst ` set (nodes b) \<union> fst ` set pre"
      "subscription b' = subscription b" "sub_handles b' = sub_handles b"
    by auto
  have "start env cfg b =
           (Inl e, b',
            [MqttConnect, MqttLoopThread, Print OpcConnecting, OpcConnect, Print OpcConnected]
            @ map (\<lambda>x. GetNode (fst (snd x))) pre @ [GetNode nid])"
    by (simp add: start_def assms(1,2,3) b' act_defs)
  with rest show ?thesis by blast
qed

text \<open>
  C4, as the code has it. \<^verbatim>\<open>start\<close> resolves the addresses in the order of the
  table, with no handler around \<^verbatim>\<open>get_node\<close>. When both connects succeed and the
  resolution of one variable's address raises, after the variables before it resolved,
  that exception leaves \<^verbatim>\<open>start\<close>: the variables before it are in the node map, the
  variables after it are not attempted, no subscription is created, no variable is
  subscribed and no snapshot is published.
  The claim as stated (the other variables are still resolved, subscribed and in the
  snapshot, and startup does not abort) fails: see the counterexample below.
\<close>

theorem start_aborts_on_unresolved:
  assumes "mqtt_connect env = Inr ()" and "opc_connect env = Inr ()"
    and "NODES_SPEC cfg = pre @ (name, nid, ty) # post"
    and "\<forall>x \<in> set pre. \<exists>node. get_node env (fst (snd x)) = Inr node"
    and "get_node env nid = Inl e"
  shows "\<exists>b'. start env cfg b =
           (Inl e, b',
            [MqttConnect, MqttLoopThread, Print OpcConnecting, OpcConnect, Print OpcConnected]
            @ map (\<lambda>x. GetNode (fst (snd x))) pre @ [GetNode nid])
        \<and> fst ` set (nodes b') = fst ` set (nodes b) \<union> fst ` set pre
        \<and> subscription b' = subscription b \<and> sub_handles b' = sub_handles b"
  using assms by (rule start_resolution_failure)

lemma unresolvable_facts:
  \<open>mqtt_connect unresolvable_env = Inr ()\<close>
  \<open>opc_connect unresolvable_env = Inr ()\<close>
  \<open>NODES_SPEC user_config =
     [(''AcknFault'', (''ns=3;s="DB_OP"."AcknFault"'', PyBool))]
     @ (''ActNo'', (''ns=3;s="DB_OP"."ActNo"'', PyInt)) # drop 2 (NODES_SPEC user_config)\<close>
  \<open>\<forall>x \<in> set [(''AcknFault'', (''ns=3;s="DB_OP"."AcknFault"'', PyBool))].
     \<exists>node. get_node unresolvable_env (fst (snd x)) = Inr node\<close>
  \<open>get_node unresolvable_env ''ns=3;s="DB_OP"."ActNo"'' = Inl (LibError ''BadNodeIdUnknown'')\<close>
  by (simp_all add: unresolvable_env_def quiet_env_def user_config_def)

lemma init_empty:
  "nodes (init cfg) = []" "subscription (init cfg) = None" "sub_handles (init cfg) = []"
  by (simp_all add: init_def Let_def)

theorem start_aborts_on_unresolved_witness:
  \<open>\<exists>b'. start unresolvable_env user_config (init user_config) =
          (Inl (LibError ''BadNodeIdUnknown''), b',
           [MqttConnect, MqttLoopThread, Print OpcConnecting, OpcConnect, Print OpcConnected,
            GetNode ''ns=3;s="DB_OP"."AcknFault"'', GetNode ''ns=3;s="DB_OP"."ActNo"''])
        \<and> fst ` set (nodes b') = {''AcknFault''}
        \<and> subscription b' = None \<and> sub_handles b' = []\<close>
  using start_aborts_on_unresolved [OF unresolvable_facts, of "init user_config"]
  by (simp add: init_empty)

theorem start_aborts_counterexample:
  \<open>fst (start unresolvable_env user_config (init user_config)) =
      Inl (LibError ''BadNodeIdUnknown'')
   \<and> events (start unresolvable_env user_config (init user_config)) =
      [MqttConnect, MqttLoopThread, Print OpcConnecting, OpcConnect, Print OpcConnected,
       GetNode ''ns=3;s="DB_OP"."AcknFault"'', GetNode ''ns=3;s="DB_OP"."ActNo"'']\<close>
proof -
  from start_resolution_failure [OF unresolvable_facts, of "init user_config"]
  obtain b' where \<open>start unresolvable_env user_config (init user_config) =
          (Inl (LibError ''BadNodeIdUnknown''), b',
           [MqttConnect, MqttLoopThread, Print OpcConnecting, OpcConnect, Print OpcConnected]
           @ map (\<lambda>x. GetNode (fst (snd x)))
               [(''AcknFault'', (''ns=3;s="DB_OP"."AcknFault"'', PyBool))]
           @ [GetNode ''ns=3;s="DB_OP"."ActNo"''])\<close>
    by blast
  then show ?thesis by (simp add: events_def)
qed

subsection \<open>Telemetry payloads\<close>

lemma datachange_run:
  "datachange_notification env cfg node val data b =
     (let name = (case map_of (nodeid_to_name b) (nodeid_to_string node) of
                    Some n \<Rightarrow> n | None \<Rightarrow> node_str node);
          ts = (case ServerTimestamp data of Some t \<Rightarrow> Some t | None \<Rightarrow> SourceTimestamp data);
          ts_iso = (case ts of Some t \<Rightarrow> PStr (isoformat t) | None \<Rightarrow> PNone)
      in case map_of (telemetry_topics b) name of
           None \<Rightarrow> (Inr (), b, [])
         | Some topic \<Rightarrow>
             if topic = [] then (Inr (), b, [])
             else
               (case json_dumps [(''name'', PStr name), (''value'', val), (''ts'', ts_iso)] of
                  Inl e \<Rightarrow> (Inl e, b, [])
                | Inr text \<Rightarrow>
                    (case mqtt_publish env topic text 1 (MQTT_RETAIN cfg) of
                       Inl e \<Rightarrow> (Inl e, b, [Publish topic text 1 (MQTT_RETAIN cfg)])
                     | Inr u \<Rightarrow>
                         (stdout_write env (Telemetry name val topic), b,
                          [Publish topic text 1 (MQTT_RETAIN cfg),
                           Print (Telemetry name val topic)]))))"
  by (simp add: datachange_notification_def Let_def act_defs split: option.splits sum.splits)

lemma datachange_publishes:
  assumes "ev \<in> set (events (datachange_notification env cfg node val data b))"
    and "is_publish ev"
  shows "\<exists>name topic text ts.
           ev = Publish topic text 1 (MQTT_RETAIN cfg) \<and>
           map_of (telemetry_topics b) name = Some topic \<and>
           json_dumps [(''name'', PStr name), (''value'', val), (''ts'', ts)] = Inr text \<and>
           (ts = PNone \<or> (\<exists>t. ts = PStr (isoformat t)))"
proof -
  define name where "name = (case map_of (nodeid_to_name b) (nodeid_to_string node) of
                    Some n \<Rightarrow> n | None \<Rightarrow> node_str node)"
  define ts where "ts = (case ServerTimestamp data of Some t \<Rightarrow> Some t | None \<Rightarrow> SourceTimestamp data)"
  define ts_iso where "ts_iso = (case ts of Some t \<Rightarrow> PStr (isoformat t) | None \<Rightarrow> PNone)"
  have iso: "ts_iso = PNone \<or> (\<exists>t. ts_iso = PStr (isoformat t))"
    by (cases ts) (auto simp: ts_iso_def)
  from assms obtain topic s where ev: "ev = Publish topic s 1 (MQTT_RETAIN cfg)"
    and t: "map_of (telemetry_topics b) name = Some topic"
    and d: "json_dumps [(''name'', PStr name), (''value'', val), (''ts'', ts_iso)] = Inr s"
    unfolding datachange_run Let_def name_def [symmetric] ts_def [symmetric] ts_iso_def [symmetric]
    by (auto simp: events_def is_publish_def split: option.splits sum.splits if_splits)
  with iso show ?thesis by blast
qed

lemma snapshot_of_run:
  "snapshot_of env cfg (name, node) b =
     (let val = (case get_value env node of
                   Inl e \<Rightarrow> PStr (''<read error: '' @ error_str e @ ''>'')
                 | Inr v \<Rightarrow> v)
      in case map_of (telemetry_topics b) name of
           None \<Rightarrow> (Inr (), b, [GetValue node])
         | Some topic \<Rightarrow>
             if topic = [] then (Inr (), b, [GetValue node])
             else
               (case json_dumps [(''name'', PStr name), (''value'', val), (''ts'', PNone),
                                 (''initial'', PBool True)] of
                  Inl e \<Rightarrow> (Inl e, b, [GetValue node])
                | Inr text \<Rightarrow>
                    (mqtt_publish env topic text 1 (MQTT_RETAIN cfg), b,
                     [GetValue node, Publish topic text 1 (MQTT_RETAIN cfg)])))"
  by (simp add: snapshot_of_def Let_def act_defs split: option.splits sum.splits)

lemma for_each_events:
  assumes "\<And>x. x \<in> set xs \<Longrightarrow>
             fst (snd (body x b)) = b \<and> (\<forall>ev \<in> set (snd (snd (body x b))). P ev)"
  shows "fst (snd (for_each xs body b)) = b \<and> (\<forall>ev \<in> set (snd (snd (for_each xs body b))). P ev)"
  using assms
proof (induction xs)
  case Nil
  then show ?case by (simp add: act_defs)
next
  case (Cons x xs)
  obtain r evs where x: "body x b = (r, b, evs)" and p: "\<forall>ev \<in> set evs. P ev"
    using Cons.prems [of x] by (cases "body x b") auto
  have "fst (snd (for_each xs body b)) = b \<and>
      (\<forall>ev \<in> set (snd (snd (for_each xs body b))). P ev)"
  proof (rule Cons.IH)
    fix y
    assume "y \<in> set xs"
    then have "y \<in> set (x # xs)" by simp
    then show "fst (snd (body y b)) = b \<and> (\<forall>ev \<in> set (snd (snd (body y b))). P ev)"
      by (rule Cons.prems)
  qed
  then have ih: "fst (snd (for_each xs body b)) = b"
    "\<forall>ev \<in> set (snd (snd (for_each xs body b))). P ev" by simp_all
  obtain r' evs' where xs: "for_each xs body b = (r', b, evs')" and p': "\<forall>ev \<in> set evs'. P ev"
    using ih by (cases "for_each xs body b") auto
  show ?case
    using p p' by (cases r) (auto simp: bnd_def x xs)
qed

lemma snapshot_publishes:
  assumes "ev \<in> set (events (publish_initial_snapshot env cfg b))"
    and "is_publish ev"
  shows "\<exists>name topic text val.
           ev = Publish topic text 1 (MQTT_RETAIN cfg) \<and>
           map_of (telemetry_topics b) name = Some topic \<and>
           json_dumps [(''name'', PStr name), (''value'', val), (''ts'', PNone),
                       (''initial'', PBool True)] = Inr text"
proof -
  let ?P = "\<lambda>ev. is_publish ev \<longrightarrow> (\<exists>name topic text val.
           ev = Publish topic text 1 (MQTT_RETAIN cfg) \<and>
           map_of (telemetry_topics b) name = Some topic \<and>
           json_dumps [(''name'', PStr name), (''value'', val), (''ts'', PNone),
                       (''initial'', PBool True)] = Inr text)"
  have body: "fst (snd (snapshot_of env cfg x b)) = b \<and>
      (\<forall>ev \<in> set (snd (snd (snapshot_of env cfg x b))). ?P ev)" for x
  proof (cases x)
    case (Pair name node)
    show ?thesis
      unfolding Pair snapshot_of_run Let_def
      by (auto simp: is_publish_def split: option.splits sum.splits)
  qed
  have loop: "fst (snd (for_each (nodes b) (snapshot_of env cfg) b)) = b \<and>
      (\<forall>ev \<in> set (snd (snd (for_each (nodes b) (snapshot_of env cfg) b))). ?P ev)"
    by (rule for_each_events) (rule body)
  obtain r evs where run: "for_each (nodes b) (snapshot_of env cfg) b = (r, b, evs)"
    and p: "\<forall>ev \<in> set evs. ?P ev"
    using loop by (cases "for_each (nodes b) (snapshot_of env cfg) b") auto
  have "\<forall>ev \<in> set (events (publish_initial_snapshot env cfg b)). ?P ev"
    using p
    by (cases r; cases "stdout_write env SnapshotPublished")
       (simp_all add: publish_initial_snapshot_def events_def act_defs run is_publish_def)
  with assms show ?thesis by blast
qed

lemma json_keys:
  \<open>json_string ''name'' = ''"name"''\<close>
  \<open>json_string ''value'' = ''"value"''\<close>
  \<open>json_string ''ts'' = ''"ts"''\<close>
  \<open>json_string ''initial'' = ''"initial"''\<close>
  \<open>json_string ''S1'' = ''"S1"''\<close>
  by code_simp+

lemma dumps_s1_true:
  \<open>json_dumps [(''name'', PStr ''S1''), (''value'', PBool True), (''ts'', ts)] =
     (case json_value ts of
        Inl e \<Rightarrow> Inl e
      | Inr t \<Rightarrow> Inr (''{"name": "S1", "value": true, "ts": '' @ t @ ''}''))\<close>
  by (simp add: json_dumps_def json_keys split: sum.splits)

lemma s1_topic:
  "configured user_config b \<Longrightarrow>
     map_of (telemetry_topics b) ''S1'' = Some ''imhotep/opc/tele/S1''"
proof -
  assume "configured user_config b"
  then have "telemetry_topics b = telemetry_topics (init user_config)"
    by (simp add: configured_def)
  moreover have "''S1'' \<in> fst ` set (NODES_SPEC user_config)"
    by (simp add: user_config_def)
  moreover have "telemetry_topic user_config ''S1'' = ''imhotep/opc/tele/S1''"
    by (simp add: telemetry_topic_def user_config_def)
  ultimately show ?thesis by (simp add: telemetry_topics_init)
qed

lemma s1_change_notification:
  assumes "configured user_config b"
    and "map_of (nodeid_to_name b) (nodeid_to_string node) = Some ''S1''"
  shows \<open>filter is_publish
           (events (datachange_notification env user_config node (PBool True) data b)) =
         [Publish ''imhotep/opc/tele/S1''
            (''{"name": "S1", "value": true, "ts": '' @
             (case ServerTimestamp data of
                Some t \<Rightarrow> json_string (isoformat t)
              | None \<Rightarrow>
                  (case SourceTimestamp data of
                     Some t \<Rightarrow> json_string (isoformat t)
                   | None \<Rightarrow> ''null'')) @ ''}'')
            1 False]\<close>
proof -
  have r: "MQTT_RETAIN user_config = False" by (simp add: user_config_def)
  show ?thesis
    unfolding datachange_run Let_def
    by (simp add: assms(2) s1_topic [OF assms(1)] dumps_s1_true r events_def is_publish_def
             split: option.splits sum.splits)
qed

text \<open>
  C8. Every publish of a change notification is to a telemetry topic, with qos 1, and
  carries the JSON text of an object with exactly the members name, value and ts, where ts
  is the ISO text of a timestamp or null. Every publish of the startup snapshot carries
  the object with the members name, value, ts (null) and initial (true); so initial is in
  the snapshot publishes only. A change notification for S1 with the value true makes
  exactly one publish, to imhotep/opc/tele/S1, whose payload is the object with name S1,
  value true and the timestamp.
\<close>

theorem telemetry_payloads:
  \<open>(\<forall>ev \<in> set (events (datachange_notification env cfg node val data b)).
      is_publish ev \<longrightarrow>
        (\<exists>name topic text ts.
           ev = Publish topic text 1 (MQTT_RETAIN cfg) \<and>
           map_of (telemetry_topics b) name = Some topic \<and>
           json_dumps [(''name'', PStr name), (''value'', val), (''ts'', ts)] = Inr text \<and>
           (ts = PNone \<or> (\<exists>t. ts = PStr (isoformat t)))))
   \<and> (\<forall>ev \<in> set (events (publish_initial_snapshot env cfg b)).
      is_publish ev \<longrightarrow>
        (\<exists>name topic text val.
           ev = Publish topic text 1 (MQTT_RETAIN cfg) \<and>
           map_of (telemetry_topics b) name = Some topic \<and>
           json_dumps [(''name'', PStr name), (''value'', val), (''ts'', PNone),
                       (''initial'', PBool True)] = Inr text))
   \<and> (configured user_config b \<and>
       map_of (nodeid_to_name b) (nodeid_to_string node) = Some ''S1'' \<longrightarrow>
       filter is_publish
         (events (datachange_notification env user_config node (PBool True) data b)) =
       [Publish ''imhotep/opc/tele/S1''
          (''{"name": "S1", "value": true, "ts": '' @
           (case ServerTimestamp data of
              Some t \<Rightarrow> json_string (isoformat t)
            | None \<Rightarrow>
                (case SourceTimestamp data of
                   Some t \<Rightarrow> json_string (isoformat t)
                 | None \<Rightarrow> ''null'')) @ ''}'')
          1 False])\<close>
  using datachange_publishes [of _ env cfg node val data b]
    snapshot_publishes [of _ env cfg b]
    s1_change_notification [of b node env data]
  by blast

lemma s1_bridge_facts:
  "configured user_config s1_bridge"
  "map_of (nodeid_to_name s1_bridge) (nodeid_to_string (sample_node ''n1'')) = Some ''S1''"
  "nodes s1_bridge = [(''S1'', sample_node ''n1'')]"
  by (simp_all add: configured_def s1_bridge_def sample_node_def)

lemma s1_snapshot_text:
  \<open>json_dumps [(''name'', PStr ''S1''), (''value'', PBool False), (''ts'', PNone),
                (''initial'', PBool True)] =
     Inr ''{"name": "S1", "value": false, "ts": null, "initial": true}''\<close>
  by code_simp

lemma s1_time_text:
  \<open>json_string ''2025-01-01T12:00:00'' = ''"2025-01-01T12:00:00"''\<close>
  by code_simp

theorem telemetry_payloads_witness:
  \<open>filter is_publish
     (events (datachange_notification quiet_env user_config (sample_node ''n1'') (PBool True)
        \<lparr> Value = None, SourceTimestamp = None,
          ServerTimestamp = Some (DateTime ''2025-01-01T12:00:00'') \<rparr> s1_bridge)) =
     [Publish ''imhotep/opc/tele/S1''
        ''{"name": "S1", "value": true, "ts": "2025-01-01T12:00:00"}'' 1 False]
   \<and> events (publish_initial_snapshot quiet_env user_config s1_bridge) =
     [GetValue (sample_node ''n1''),
      Publish ''imhotep/opc/tele/S1''
        ''{"name": "S1", "value": false, "ts": null, "initial": true}'' 1 False,
      Print SnapshotPublished]\<close>
proof -
  have a: \<open>filter is_publish
     (events (datachange_notification quiet_env user_config (sample_node ''n1'') (PBool True)
        \<lparr> Value = None, SourceTimestamp = None,
          ServerTimestamp = Some (DateTime ''2025-01-01T12:00:00'') \<rparr> s1_bridge)) =
     [Publish ''imhotep/opc/tele/S1''
        ''{"name": "S1", "value": true, "ts": "2025-01-01T12:00:00"}'' 1 False]\<close>
    using telemetry_payloads [of quiet_env user_config "sample_node ''n1''" "PBool True"
        "\<lparr> Value = None, SourceTimestamp = None,
          ServerTimestamp = Some (DateTime ''2025-01-01T12:00:00'') \<rparr>" s1_bridge]
      s1_bridge_facts
    by (simp add: s1_time_text)
  have r: "MQTT_RETAIN user_config = False" by (simp add: user_config_def)
  have b: \<open>events (publish_initial_snapshot quiet_env user_config s1_bridge) =
     [GetValue (sample_node ''n1''),
      Publish ''imhotep/opc/tele/S1''
        ''{"name": "S1", "value": false, "ts": null, "initial": true}'' 1 False,
      Print SnapshotPublished]\<close>
    by (simp add: publish_initial_snapshot_def events_def act_defs s1_bridge_facts
          snapshot_of_run s1_topic s1_snapshot_text r quiet_env_def)
  from a b show ?thesis by simp
qed

end
